theory Spec2Isabelle
  imports Main
begin

section \<open>The fork island of pagmo: data model\<close>

text \<open>
  The development embeds \<^verbatim>\<open>include/pagmo/islands/fork_island.hpp\<close>: the RAII pipe
  \<^verbatim>\<open>pipe_t\<close>, the chunked transfer of a serialised \<^verbatim>\<open>message_t\<close> from the forked
  child to the parent, and the two error-handling paths of \<^verbatim>\<open>run_evolve\<close>.

  Operating-system calls are answered by an oracle (\<open>os\<close>): every call made by a process
  is appended to that process's trace, and the oracle is asked with the number of calls the
  process has made so far. A call either fails with an \<^verbatim>\<open>errno\<close> (\<open>Err\<close>, the C return
  value \<^verbatim>\<open>-1\<close>) or returns (\<open>Ret\<close>).
\<close>

datatype 'r sysret = Err int | Ret 'r

datatype syscall =
    Sys_pipe
  | Sys_fork
  | Sys_close int
  | Sys_read int nat
  | Sys_write int "char list"
  | Sys_kill int int

record os =
  sys_pipe :: "nat \<Rightarrow> (int \<times> int) sysret"
  sys_fork :: "nat \<Rightarrow> int sysret"
  sys_close :: "nat \<Rightarrow> unit sysret"
  sys_read :: "nat \<Rightarrow> nat sysret"
  sys_write :: "nat \<Rightarrow> unit sysret"
  sys_kill :: "nat \<Rightarrow> unit sysret"
  what_assign_throws :: bool

text \<open>
  \<open>sys_read\<close> returns the number of bytes the kernel is willing to deliver at that call;
  the pipe hands over at least one and at most \<^verbatim>\<open>sizeof(buffer)\<close> of the bytes still in
  it, and zero bytes (end of file) once it is drained and its writer is gone.
  \<open>sys_write\<close> on the blocking pipe either fails or accepts the whole chunk (a chunk is
  never larger than 1024 bytes). \<open>what_assign_throws\<close> says whether the string
  assignment \<^verbatim>\<open>std::get<1>(m) = e.what()\<close> of the child raises.
\<close>

text \<open>
  Exceptions. \<open>Errno_error fname errno\<close> is the \<^verbatim>\<open>std::runtime_error\<close> thrown by
  \<^verbatim>\<open>raise_errno(fname)\<close>; \<open>Child_error txt\<close> is the \<^verbatim>\<open>std::runtime_error\<close> thrown by
  the parent when the child reported a failure with text \<open>txt\<close>; \<open>Std_exception txt\<close> is
  any other exception derived from \<^verbatim>\<open>std::exception\<close> (raised by the algorithm or by the
  serialisation library) with its \<^verbatim>\<open>what()\<close>; \<open>Other_exception\<close> is an exception that
  is not derived from \<^verbatim>\<open>std::exception\<close>.
\<close>

datatype exn =
    Errno_error string int
  | Child_error string
  | Std_exception string
  | Other_exception

text \<open>A computation returns, throws, or terminates the process (\<^verbatim>\<open>std::exit\<close>).\<close>

datatype 'r res = Normal 'r | Throw exn | Exit int

text \<open>\<^verbatim>\<open>message_t = std::tuple<int, std::string, algorithm, population>\<close>;
  the fields are named after \<^verbatim>\<open>std::get<i>\<close>.\<close>

record ('a, 'p) message_t =
  get0 :: int
  get1 :: string
  get2 :: 'a
  get3 :: 'p

record ('a, 'p) island =
  isl_algorithm :: 'a
  isl_population :: 'p

text \<open>The outcome of \<^verbatim>\<open>algo.evolve(isl.get_population())\<close> on the child's copy of the
  algorithm: the evolved algorithm and population, an exception, or the death of the
  process running it.\<close>

datatype ('a, 'p) evolved = Evolved 'a 'p | Evolve_throws exn | Evolve_dies int

text \<open>
  The collaborators that are not part of the island: the binary archives of the
  serialisation library, the default-constructed \<^verbatim>\<open>algorithm{}\<close> and \<^verbatim>\<open>population{}\<close>,
  the algorithm's \<^verbatim>\<open>evolve\<close>, and the text functions \<^verbatim>\<open>std::to_string\<close>,
  \<^verbatim>\<open>std::strerror\<close> and the decoration \<^verbatim>\<open>pagmo_throw\<close> puts around a description.
\<close>

record ('a, 'p) lib =
  oarchive :: "('a, 'p) message_t \<Rightarrow> exn + char list"
  iarchive :: "char list \<Rightarrow> exn + ('a, 'p) message_t"
  algorithm_def :: 'a
  population_def :: 'p
  evolve :: "'a \<Rightarrow> 'p \<Rightarrow> ('a, 'p) evolved"
  to_string :: "int \<Rightarrow> string"
  strerror :: "int \<Rightarrow> string"
  pagmo_throw_text :: "string \<Rightarrow> string"

record pipe_t =
  read_fd :: int
  write_fd :: int
  r_status :: bool
  w_status :: bool

text \<open>
  The state of one process inside \<^verbatim>\<open>run_evolve\<close>: the locals \<^verbatim>\<open>p\<close> and \<^verbatim>\<open>m\<close>, the
  island passed by reference, the trace of system calls made, the lines printed to
  \<^verbatim>\<open>std::cerr\<close>, the bytes the kernel accepted from this process on the pipe, and the
  messages handed to \<^verbatim>\<open>send_message\<close>.
\<close>

record ('a, 'p) st =
  var_p :: pipe_t
  var_m :: "('a, 'p) message_t"
  var_isl :: "('a, 'p) island"
  calls :: "syscall list"
  cerr :: "string list"
  wire :: "char list"
  sent :: "('a, 'p) message_t list"

definition ESRCH :: int where
  "ESRCH = 3"

definition SIGTERM :: int where
  "SIGTERM = 15"

definition now :: "('a, 'p) st \<Rightarrow> nat" where
  "now s = length (calls s)"

definition issue :: "syscall \<Rightarrow> ('a, 'p) st \<Rightarrow> ('a, 'p) st" where
  "issue c s = s\<lparr>calls := calls s @ [c]\<rparr>"

definition print_cerr :: "string \<Rightarrow> ('a, 'p) st \<Rightarrow> ('a, 'p) st" where
  "print_cerr l s = s\<lparr>cerr := cerr s @ [l]\<rparr>"

section \<open>Error values and texts\<close>

definition raise_errno :: "string \<Rightarrow> int \<Rightarrow> 'r res" where
  "raise_errno fname errno = Throw (Errno_error fname errno)"

definition raise_errno_text :: "('a, 'p) lib \<Rightarrow> string \<Rightarrow> int \<Rightarrow> string" where
  "raise_errno_text L fname errno =
     ''The call to the function '' @ fname
       @ ''() in the fork island failed with error code '' @ to_string L errno
       @ '' and the following error message: '' @ [CHR 0x27] @ strerror L errno @ [CHR 0x27]"

definition child_error_text :: "string \<Rightarrow> string" where
  "child_error_text txt =
     ''The run_evolve() method of fork_island raised an error in the ''
       @ ''child process. The full error message reported by the child is:'' @ [CHR 0x0A] @ txt"

fun what :: "('a, 'p) lib \<Rightarrow> exn \<Rightarrow> string" where
  "what L (Errno_error fname errno) = pagmo_throw_text L (raise_errno_text L fname errno)"
| "what L (Child_error txt) = pagmo_throw_text L (child_error_text txt)"
| "what L (Std_exception txt) = txt"
| "what L Other_exception = []"

fun is_std_exception :: "exn \<Rightarrow> bool" where
  "is_std_exception Other_exception = False"
| "is_std_exception _ = True"

definition dtor_msg :: string where
  "dtor_msg = ''An unrecoverable error was raised in the destructor of a pipe in fork_island(). Exiting now.''"

definition parent_fatal_msg :: string where
  "parent_fatal_msg = ''An unrecoverable error was raised while handling another error in the parent process ''
     @ ''of fork_island(). Giving up now.''"

definition fatal_msg :: string where
  "fatal_msg = ''An unrecoverable error was raised while handling another error in the child process ''
     @ ''of fork_island(). Giving up now.''"

section \<open>The pipe\<close>

text \<open>The constructor: the member initialisers set both flags, then \<^verbatim>\<open>pipe(fd)\<close> is
  called; the descriptors are stored only when it succeeded.\<close>

definition pipe_ctor :: "os \<Rightarrow> ('a, 'p) st \<Rightarrow> unit res \<times> ('a, 'p) st" where
  "pipe_ctor os s =
     (let s1 = s\<lparr>var_p := (var_p s)\<lparr>r_status := True, w_status := True\<rparr>\<rparr>;
          s2 = issue Sys_pipe s1
      in case sys_pipe os (now s1) of
           Err e \<Rightarrow> (raise_errno ''pipe'' e, s2)
         | Ret fd \<Rightarrow> (Normal (), s2\<lparr>var_p := (var_p s2)\<lparr>read_fd := fst fd, write_fd := snd fd\<rparr>\<rparr>))"

definition close_r :: "os \<Rightarrow> ('a, 'p) st \<Rightarrow> unit res \<times> ('a, 'p) st" where
  "close_r os s =
     (if r_status (var_p s) then
        (let s1 = issue (Sys_close (read_fd (var_p s))) s
         in case sys_close os (now s) of
              Err e \<Rightarrow> (raise_errno ''close'' e, s1)
            | Ret _ \<Rightarrow> (Normal (), s1\<lparr>var_p := (var_p s1)\<lparr>r_status := False\<rparr>\<rparr>))
      else (Normal (), s))"

definition close_w :: "os \<Rightarrow> ('a, 'p) st \<Rightarrow> unit res \<times> ('a, 'p) st" where
  "close_w os s =
     (if w_status (var_p s) then
        (let s1 = issue (Sys_close (write_fd (var_p s))) s
         in case sys_close os (now s) of
              Err e \<Rightarrow> (raise_errno ''close'' e, s1)
            | Ret _ \<Rightarrow> (Normal (), s1\<lparr>var_p := (var_p s1)\<lparr>w_status := False\<rparr>\<rparr>))
      else (Normal (), s))"

text \<open>The destructor: any exception of the two closes is caught, the diagnostic is
  printed and the process exits with status 1.\<close>

definition pipe_dtor :: "os \<Rightarrow> ('a, 'p) st \<Rightarrow> unit res \<times> ('a, 'p) st" where
  "pipe_dtor os s =
     (case close_r os s of
        (Normal _, s1) \<Rightarrow>
          (case close_w os s1 of
             (Normal _, s2) \<Rightarrow> (Normal (), s2)
           | (Throw e, s2) \<Rightarrow> (Exit 1, print_cerr dtor_msg s2)
           | (Exit c, s2) \<Rightarrow> (Exit c, s2))
      | (Throw e, s1) \<Rightarrow> (Exit 1, print_cerr dtor_msg s1)
      | (Exit c, s1) \<Rightarrow> (Exit c, s1))"

section \<open>Sequencing and exception handling\<close>

text \<open>\<open>and_then x f\<close> runs \<open>f\<close> after \<open>x\<close> returned; an exception or a process exit of
  \<open>x\<close> skips \<open>f\<close>. \<open>catching x h\<close> is \<^verbatim>\<open>try { x } catch (...) { h }\<close>: only an exception
  enters the handler, \<^verbatim>\<open>std::exit\<close> does not unwind.\<close>

definition and_then ::
  "'q res \<times> ('a, 'p) st \<Rightarrow> ('q \<Rightarrow> ('a, 'p) st \<Rightarrow> 'r res \<times> ('a, 'p) st) \<Rightarrow> 'r res \<times> ('a, 'p) st" where
  "and_then x f =
     (case x of
        (Normal v, s) \<Rightarrow> f v s
      | (Throw e, s) \<Rightarrow> (Throw e, s)
      | (Exit c, s) \<Rightarrow> (Exit c, s))"

definition catching ::
  "'r res \<times> ('a, 'p) st \<Rightarrow> (exn \<Rightarrow> ('a, 'p) st \<Rightarrow> 'r res \<times> ('a, 'p) st) \<Rightarrow> 'r res \<times> ('a, 'p) st" where
  "catching x h =
     (case x of
        (Normal v, s) \<Rightarrow> (Normal v, s)
      | (Throw e, s) \<Rightarrow> h e s
      | (Exit c, s) \<Rightarrow> (Exit c, s))"

section \<open>The child: sending a message\<close>

text \<open>
  The loop of \<^verbatim>\<open>send_message\<close>. \<open>ss\<close> is what is still unread in the string stream.
  \<^verbatim>\<open>ss.read(buffer, 1024)\<close> extracts up to 1024 characters and sets the end-of-file bit
  exactly when fewer than 1024 were available, so the body runs at least once and the last
  chunk may be empty.
\<close>

function send_loop :: "os \<Rightarrow> char list \<Rightarrow> ('a, 'p) st \<Rightarrow> unit res \<times> ('a, 'p) st" where
  "send_loop os ss s =
     (let buffer = take 1024 ss;
          s1 = issue (Sys_write (write_fd (var_p s)) buffer) s
      in case sys_write os (now s) of
           Err e \<Rightarrow> (raise_errno ''write'' e, s1)
         | Ret _ \<Rightarrow>
             (let s2 = s1\<lparr>wire := wire s1 @ buffer\<rparr>
              in if length ss < 1024 then (Normal (), s2)
                 else send_loop os (drop 1024 ss) s2))"
  by pat_completeness auto
termination
  by (relation "measure (\<lambda>(os, ss, s). length ss)") auto

definition send_message ::
  "('a, 'p) lib \<Rightarrow> os \<Rightarrow> ('a, 'p) message_t \<Rightarrow> ('a, 'p) st \<Rightarrow> unit res \<times> ('a, 'p) st" where
  "send_message L os ms s =
     (let s1 = s\<lparr>sent := sent s @ [ms]\<rparr>
      in case oarchive L ms of
           Inl e \<Rightarrow> (Throw e, s1)
         | Inr ss \<Rightarrow> send_loop os ss s1)"

section \<open>The child\<close>

text \<open>The first \<^verbatim>\<open>try\<close> block of the child (it ends in \<^verbatim>\<open>std::exit(0)\<close>).\<close>

definition child_try :: "('a, 'p) lib \<Rightarrow> os \<Rightarrow> ('a, 'p) st \<Rightarrow> unit res \<times> ('a, 'p) st" where
  "child_try L os s =
     and_then (close_r os s) (\<lambda>_ s1.
       case evolve L (isl_algorithm (var_isl s1)) (isl_population (var_isl s1)) of
         Evolve_throws e \<Rightarrow> (Throw e, s1)
       | Evolve_dies c \<Rightarrow> (Exit c, s1)
       | Evolved algo new_pop \<Rightarrow>
           (let s2 = s1\<lparr>var_m := (var_m s1)\<lparr>get2 := algo, get3 := new_pop\<rparr>\<rparr>
            in and_then (send_message L os (var_m s2) s2) (\<lambda>_ s3.
                 and_then (close_w os s3) (\<lambda>_ s4. (Exit 0, s4)))))"

text \<open>What follows the catch clauses: the error flag is set and the failure is reported;
  a failure of the report is fatal.\<close>

definition child_report :: "('a, 'p) lib \<Rightarrow> os \<Rightarrow> ('a, 'p) st \<Rightarrow> unit res \<times> ('a, 'p) st" where
  "child_report L os s =
     (let s1 = s\<lparr>var_m := (var_m s)\<lparr>get0 := 1\<rparr>\<rparr>
      in catching
           (let s2 = s1\<lparr>var_m := (var_m s1)\<lparr>get2 := algorithm_def L, get3 := population_def L\<rparr>\<rparr>
            in and_then (send_message L os (var_m s2) s2) (\<lambda>_ s3.
                 and_then (close_w os s3) (\<lambda>_ s4. (Exit 0, s4))))
           (\<lambda>e s5. (Exit 1, print_cerr fatal_msg s5)))"

text \<open>The two catch clauses: a \<^verbatim>\<open>std::exception\<close> has its text stored in the message
  (a failure of that assignment is fatal), anything else leaves the text as it is.\<close>

definition child_catch ::
  "('a, 'p) lib \<Rightarrow> os \<Rightarrow> exn \<Rightarrow> ('a, 'p) st \<Rightarrow> unit res \<times> ('a, 'p) st" where
  "child_catch L os e s =
     (if is_std_exception e then
        (if what_assign_throws os then (Exit 1, print_cerr fatal_msg s)
         else child_report L os (s\<lparr>var_m := (var_m s)\<lparr>get1 := what L e\<rparr>\<rparr>))
      else child_report L os s)"

definition run_evolve_child ::
  "('a, 'p) lib \<Rightarrow> os \<Rightarrow> ('a, 'p) st \<Rightarrow> unit res \<times> ('a, 'p) st" where
  "run_evolve_child L os s = catching (child_try L os s) (child_catch L os)"

section \<open>The parent\<close>

text \<open>
  The read loop. \<open>inbound\<close> is what the child put on the pipe and the parent has not read
  yet; \<open>ss\<close> is the string stream filled so far. A read fails, or reports end of file when
  the pipe is drained, or delivers between 1 and 1024 of the pending bytes.
\<close>

function read_loop ::
  "os \<Rightarrow> char list \<Rightarrow> char list \<Rightarrow> ('a, 'p) st \<Rightarrow> char list res \<times> ('a, 'p) st" where
  "read_loop os inbound ss s =
     (let s1 = issue (Sys_read (read_fd (var_p s)) 1024) s
      in case sys_read os (now s) of
           Err e \<Rightarrow> (raise_errno ''read'' e, s1)
         | Ret k \<Rightarrow>
             if inbound = [] then (Normal ss, s1)
             else (let read_bytes = max 1 (min 1024 k)
                   in read_loop os (drop read_bytes inbound) (ss @ take read_bytes inbound) s1))"
  by pat_completeness auto
termination
  by (relation "measure (\<lambda>(os, inbound, ss, s). length inbound)") auto

definition parent_try ::
  "('a, 'p) lib \<Rightarrow> os \<Rightarrow> char list \<Rightarrow> ('a, 'p) st \<Rightarrow> unit res \<times> ('a, 'p) st" where
  "parent_try L os inbound s =
     and_then (close_w os s) (\<lambda>_ s1.
       and_then (read_loop os inbound [] s1) (\<lambda>ss s2.
         case iarchive L ss of
           Inl e \<Rightarrow> (Throw e, s2)
         | Inr ms \<Rightarrow> close_r os (s2\<lparr>var_m := ms\<rparr>)))"

definition parent_catch :: "os \<Rightarrow> int \<Rightarrow> exn \<Rightarrow> ('a, 'p) st \<Rightarrow> unit res \<times> ('a, 'p) st" where
  "parent_catch os child_pid e s =
     (let s1 = issue (Sys_kill child_pid SIGTERM) s
      in case sys_kill os (now s) of
           Err errno \<Rightarrow>
             if errno \<noteq> ESRCH then (Exit 1, print_cerr parent_fatal_msg s1)
             else (Throw e, s1)
         | Ret _ \<Rightarrow> (Throw e, s1))"

text \<open>The island's setters, which belong to the island class, are taken to store the
  value and return.\<close>

definition set_algorithm :: "'a \<Rightarrow> ('a, 'p) island \<Rightarrow> ('a, 'p) island" where
  "set_algorithm a i = i\<lparr>isl_algorithm := a\<rparr>"

definition set_population :: "'p \<Rightarrow> ('a, 'p) island \<Rightarrow> ('a, 'p) island" where
  "set_population x i = i\<lparr>isl_population := x\<rparr>"

definition run_evolve_parent ::
  "('a, 'p) lib \<Rightarrow> os \<Rightarrow> int \<Rightarrow> char list \<Rightarrow> ('a, 'p) st \<Rightarrow> unit res \<times> ('a, 'p) st" where
  "run_evolve_parent L os child_pid inbound s =
     and_then (catching (parent_try L os inbound s) (parent_catch os child_pid)) (\<lambda>_ s1.
       if get0 (var_m s1) \<noteq> 0 then (Throw (Child_error (get1 (var_m s1))), s1)
       else (Normal (),
             s1\<lparr>var_isl := set_population (get3 (var_m s1))
                              (set_algorithm (get2 (var_m s1)) (var_isl s1))\<rparr>))"

section \<open>\<^verbatim>\<open>run_evolve\<close>\<close>

text \<open>The value-initialised \<^verbatim>\<open>message_t m\<close>.\<close>

definition message_def :: "('a, 'p) lib \<Rightarrow> ('a, 'p) message_t" where
  "message_def L = \<lparr>get0 = 0, get1 = [], get2 = algorithm_def L, get3 = population_def L\<rparr>"

text \<open>Leaving \<^verbatim>\<open>run_evolve\<close> by return or by exception destroys \<^verbatim>\<open>p\<close>;
  \<^verbatim>\<open>std::exit\<close> does not.\<close>

definition scope_exit :: "os \<Rightarrow> unit res \<times> ('a, 'p) st \<Rightarrow> unit res \<times> ('a, 'p) st" where
  "scope_exit os x =
     (case x of
        (Exit c, s) \<Rightarrow> (Exit c, s)
      | (Normal v, s) \<Rightarrow> and_then (pipe_dtor os s) (\<lambda>_ s1. (Normal v, s1))
      | (Throw e, s) \<Rightarrow> and_then (pipe_dtor os s) (\<lambda>_ s1. (Throw e, s1)))"

text \<open>The forked child starts from a copy of the parent's memory, with a trace of its
  own.\<close>

definition fork_copy :: "('a, 'p) st \<Rightarrow> ('a, 'p) st" where
  "fork_copy s = s\<lparr>calls := [], cerr := [], wire := [], sent := []\<rparr>"

text \<open>
  \<^verbatim>\<open>run_evolve\<close> as one process executes it. \<open>osP\<close> answers the calls of the calling
  process, \<open>osC\<close> those of the child it forks. When \<^verbatim>\<open>fork\<close> returns a process id, the
  bytes the parent finds in the pipe are those the child's run put there; when it returns
  0 the executing process is the new child, which starts its own trace. The child's run is
  taken to its end: a \<^verbatim>\<open>SIGTERM\<close> from the parent's handler arrives when the parent has
  stopped reading, so it does not change what the parent sees.
\<close>

definition run_evolve ::
  "('a, 'p) lib \<Rightarrow> os \<Rightarrow> os \<Rightarrow> ('a, 'p) st \<Rightarrow> unit res \<times> ('a, 'p) st" where
  "run_evolve L osP osC s0 =
     and_then (pipe_ctor osP (s0\<lparr>var_m := message_def L\<rparr>)) (\<lambda>_ s1.
       let s2 = issue Sys_fork s1
       in case sys_fork osP (now s1) of
            Err e \<Rightarrow> scope_exit osP (raise_errno ''fork'' e, s2)
          | Ret child_pid \<Rightarrow>
              if child_pid \<noteq> 0 then
                scope_exit osP
                  (run_evolve_parent L osP child_pid
                     (wire (snd (run_evolve_child L osC (fork_copy s2)))) s2)
              else run_evolve_child L osP (fork_copy s2))"

text \<open>The run of the child process that \<^verbatim>\<open>run_evolve\<close> creates, if it gets that far.\<close>

definition forked_child ::
  "('a, 'p) lib \<Rightarrow> os \<Rightarrow> os \<Rightarrow> ('a, 'p) st \<Rightarrow> (unit res \<times> ('a, 'p) st) option" where
  "forked_child L osP osC s0 =
     (case pipe_ctor osP (s0\<lparr>var_m := message_def L\<rparr>) of
        (Normal _, s1) \<Rightarrow>
          (case sys_fork osP (now s1) of
             Err e \<Rightarrow> None
           | Ret child_pid \<Rightarrow>
               if child_pid \<noteq> 0 then Some (run_evolve_child L osC (fork_copy (issue Sys_fork s1)))
               else Some (run_evolve_child L osP (fork_copy (issue Sys_fork s1))))
      | (Throw e, s1) \<Rightarrow> None
      | (Exit c, s1) \<Rightarrow> None)"

section \<open>Concrete collaborators and states\<close>

text \<open>
  A small archive format, used to run the model on concrete inputs: the algorithm is one
  character, the population a string; a message is laid out as a flag character, the
  algorithm, the error text, a zero byte, and the population.
\<close>

definition example_oarchive :: "(char, char list) message_t \<Rightarrow> exn + char list" where
  "example_oarchive ms =
     Inr ((if get0 ms = 0 then CHR ''S'' else CHR ''F'') # get2 ms # get1 ms @ [CHR 0x00] @ get3 ms)"

definition example_iarchive :: "char list \<Rightarrow> exn + (char, char list) message_t" where
  "example_iarchive bs =
     (case bs of
        flag # a # rest \<Rightarrow>
          (if CHR 0x00 \<in> set rest then
             Inr \<lparr>get0 = (if flag = CHR ''S'' then 0 else 1),
                  get1 = takeWhile (\<lambda>c. c \<noteq> CHR 0x00) rest,
                  get2 = a,
                  get3 = tl (dropWhile (\<lambda>c. c \<noteq> CHR 0x00) rest)\<rparr>
           else Inl (Std_exception ''truncated archive''))
      | _ \<Rightarrow> Inl (Std_exception ''truncated archive''))"

definition example_lib ::
  "(char \<Rightarrow> char list \<Rightarrow> (char, char list) evolved) \<Rightarrow> (char, char list) lib" where
  "example_lib ev =
     \<lparr>oarchive = example_oarchive, iarchive = example_iarchive,
      algorithm_def = CHR ''-'', population_def = [],
      evolve = ev,
      to_string = (\<lambda>n. if n = 9 then ''9'' else ''?''),
      strerror = (\<lambda>n. if n = 9 then ''Bad file descriptor'' else ''Unknown error''),
      pagmo_throw_text = (\<lambda>d. d)\<rparr>"

text \<open>An operating system on which every call succeeds; the pipe gets the descriptors 3
  and 4, the child the process id 4711.\<close>

definition example_os :: os where
  "example_os =
     \<lparr>sys_pipe = (\<lambda>_. Ret (3, 4)), sys_fork = (\<lambda>_. Ret 4711), sys_close = (\<lambda>_. Ret ()),
      sys_read = (\<lambda>_. Ret 1024), sys_write = (\<lambda>_. Ret ()), sys_kill = (\<lambda>_. Ret ()),
      what_assign_throws = False\<rparr>"

text \<open>A caller's state before \<^verbatim>\<open>run_evolve\<close>, with a population of 2500 characters, and
  the same state with the pipe open.\<close>

definition example_st :: "(char, char list) st" where
  "example_st =
     \<lparr>var_p = \<lparr>read_fd = 0, write_fd = 0, r_status = False, w_status = False\<rparr>,
      var_m = \<lparr>get0 = 0, get1 = [], get2 = CHR ''-'', get3 = []\<rparr>,
      var_isl = \<lparr>isl_algorithm = CHR ''a'', isl_population = replicate 2500 (CHR ''x'')\<rparr>,
      calls = [], cerr = [], wire = [], sent = []\<rparr>"

definition example_st_open :: "(char, char list) st" where
  "example_st_open =
     example_st\<lparr>var_p := \<lparr>read_fd = 3, write_fd = 4, r_status = True, w_status = True\<rparr>\<rparr>"

text \<open>A task that succeeds (the population grows by one character), an operating system
  on which the third call of a process fails when it is a \<^verbatim>\<open>write\<close>, and one on which every
  \<^verbatim>\<open>read\<close> fails.\<close>

definition example_grow :: "char \<Rightarrow> char list \<Rightarrow> (char, char list) evolved" where
  "example_grow a p = Evolved (CHR ''b'') (p @ ''!'')"

definition example_os_write_fails :: os where
  "example_os_write_fails = example_os\<lparr>sys_write := (\<lambda>i. if i = 2 then Err 9 else Ret ())\<rparr>"

definition example_os_read_fails :: os where
  "example_os_read_fails = example_os\<lparr>sys_read := (\<lambda>_. Err 5)\<rparr>"

section \<open>Basic facts\<close>

lemma and_then_simps:
  "and_then (Normal v, s) f = f v s"
  "and_then (Throw e, s) f = (Throw e, s)"
  "and_then (Exit c, s) f = (Exit c, s)"
  by (simp_all add: and_then_def)

lemma catching_simps:
  "catching (Normal v, s) h = (Normal v, s)"
  "catching (Throw e, s) h = h e s"
  "catching (Exit c, s) h = (Exit c, s)"
  by (simp_all add: catching_def)

lemma close_r_frame:
  "var_isl (snd (close_r os s)) = var_isl s"
  "var_m (snd (close_r os s)) = var_m s"
  "wire (snd (close_r os s)) = wire s"
  "sent (snd (close_r os s)) = sent s"
  "cerr (snd (close_r os s)) = cerr s"
  by (simp_all add: close_r_def issue_def raise_errno_def Let_def split: sysret.splits)

lemma close_w_frame:
  "var_isl (snd (close_w os s)) = var_isl s"
  "var_m (snd (close_w os s)) = var_m s"
  "wire (snd (close_w os s)) = wire s"
  "sent (snd (close_w os s)) = sent s"
  "cerr (snd (close_w os s)) = cerr s"
  by (simp_all add: close_w_def issue_def raise_errno_def Let_def split: sysret.splits)

declare send_loop.simps [simp del] read_loop.simps [simp del]

lemma send_loop_Err:
  "sys_write os (now s) = Err e \<Longrightarrow>
   send_loop os ss s = (Throw (Errno_error ''write'' e), issue (Sys_write (write_fd (var_p s)) (take 1024 ss)) s)"
  by (subst send_loop.simps) (simp add: raise_errno_def Let_def)

lemma send_loop_last:
  "sys_write os (now s) = Ret u \<Longrightarrow> length ss < 1024 \<Longrightarrow>
   send_loop os ss s = (Normal (), (issue (Sys_write (write_fd (var_p s)) ss) s)\<lparr>wire := wire s @ ss\<rparr>)"
  by (subst send_loop.simps) (simp add: Let_def issue_def)

lemma send_loop_more:
  "sys_write os (now s) = Ret u \<Longrightarrow> \<not> length ss < 1024 \<Longrightarrow>
   send_loop os ss s =
     send_loop os (drop 1024 ss)
       ((issue (Sys_write (write_fd (var_p s)) (take 1024 ss)) s)\<lparr>wire := wire s @ take 1024 ss\<rparr>)"
  by (subst send_loop.simps) (simp add: Let_def issue_def)

lemma send_loop_frame:
  "var_isl (snd (send_loop os ss s)) = var_isl s \<and> var_m (snd (send_loop os ss s)) = var_m s
   \<and> var_p (snd (send_loop os ss s)) = var_p s \<and> sent (snd (send_loop os ss s)) = sent s
   \<and> cerr (snd (send_loop os ss s)) = cerr s"
proof (induction os ss s rule: send_loop.induct)
  case (1 os ss s)
  show ?case
  proof (cases "sys_write os (now s)")
    case (Err e)
    then show ?thesis
      by (simp add: send_loop_Err issue_def)
  next
    case (Ret u)
    show ?thesis
    proof (cases "length ss < 1024")
      case True
      with Ret show ?thesis
        by (simp add: send_loop_last issue_def)
    next
      case False
      with Ret 1 show ?thesis
        by (simp add: send_loop_more issue_def)
    qed
  qed
qed


lemma close_r_fails:
  "r_status (var_p s) \<Longrightarrow> sys_close os (now s) = Err e \<Longrightarrow>
   close_r os s = (Throw (Errno_error ''close'' e), issue (Sys_close (read_fd (var_p s))) s)"
  by (simp add: close_r_def raise_errno_def Let_def)

lemma close_w_fails:
  "w_status (var_p s) \<Longrightarrow> sys_close os (now s) = Err e \<Longrightarrow>
   close_w os s = (Throw (Errno_error ''close'' e), issue (Sys_close (write_fd (var_p s))) s)"
  by (simp add: close_w_def raise_errno_def Let_def)

lemma close_r_succeeds:
  "r_status (var_p s) \<Longrightarrow> sys_close os (now s) = Ret u \<Longrightarrow>
   close_r os s =
     (Normal (), (issue (Sys_close (read_fd (var_p s))) s)\<lparr>var_p := (var_p s)\<lparr>r_status := False\<rparr>\<rparr>)"
  by (simp add: close_r_def Let_def issue_def)

lemma close_w_succeeds:
  "w_status (var_p s) \<Longrightarrow> sys_close os (now s) = Ret u \<Longrightarrow>
   close_w os s =
     (Normal (), (issue (Sys_close (write_fd (var_p s))) s)\<lparr>var_p := (var_p s)\<lparr>w_status := False\<rparr>\<rparr>)"
  by (simp add: close_w_def Let_def issue_def)

lemma close_r_closed: "\<not> r_status (var_p s) \<Longrightarrow> close_r os s = (Normal (), s)"
  by (simp add: close_r_def)

lemma close_w_closed: "\<not> w_status (var_p s) \<Longrightarrow> close_w os s = (Normal (), s)"
  by (simp add: close_w_def)

lemma issue_simps:
  "var_p (issue c s) = var_p s" "var_m (issue c s) = var_m s" "var_isl (issue c s) = var_isl s"
  "calls (issue c s) = calls s @ [c]" "cerr (issue c s) = cerr s" "wire (issue c s) = wire s"
  "sent (issue c s) = sent s" "now (issue c s) = Suc (now s)"
  by (simp_all add: issue_def now_def)

lemma print_cerr_simps:
  "var_p (print_cerr l s) = var_p s" "var_m (print_cerr l s) = var_m s"
  "var_isl (print_cerr l s) = var_isl s" "calls (print_cerr l s) = calls s"
  "cerr (print_cerr l s) = cerr s @ [l]" "wire (print_cerr l s) = wire s"
  "sent (print_cerr l s) = sent s" "now (print_cerr l s) = now s"
  by (simp_all add: print_cerr_def now_def)

lemma dtor_retries_read_end:
  assumes "r_status (var_p s)" and "sys_close os (now s) = Err e"
  shows "take (length (calls s) + 2) (calls (snd (pipe_dtor os2 (snd (close_r os s)))))
           = calls s @ [Sys_close (read_fd (var_p s)), Sys_close (read_fd (var_p s))]"
proof -
  let ?s1 = "issue (Sys_close (read_fd (var_p s))) s"
  have s1: "snd (close_r os s) = ?s1" using assms by (simp add: close_r_fails)
  have r1: "r_status (var_p ?s1)" using assms by (simp add: issue_simps)
  show ?thesis
  proof (cases "sys_close os2 (now ?s1)")
    case (Err e2)
    then show ?thesis
      using r1 by (simp add: s1 pipe_dtor_def close_r_fails issue_simps print_cerr_simps)
  next
    case (Ret u)
    then show ?thesis 
      using r1
      by (cases "w_status (var_p s)"; cases "sys_close os2 (Suc (Suc (now s)))")
         (simp_all add: s1 pipe_dtor_def close_r_succeeds close_w_succeeds close_w_fails close_w_closed issue_simps print_cerr_simps now_def)
  qed
qed


lemma send_loop_spec:
  "\<exists>chunks. calls (snd (send_loop os ss s)) = calls s @ map (Sys_write (write_fd (var_p s))) chunks
     \<and> chunks \<noteq> [] \<and> (\<forall>c\<in>set chunks. length c \<le> 1024)
     \<and> (fst (send_loop os ss s) = Normal () \<and> concat chunks = ss
          \<and> length chunks = length ss div 1024 + 1
          \<and> wire (snd (send_loop os ss s)) = wire s @ ss
          \<and> (\<forall>i<length chunks. sys_write os (now s + i) = Ret ())
        \<or> (\<exists>errno. fst (send_loop os ss s) = Throw (Errno_error ''write'' errno)
              \<and> sys_write os (now s + length chunks - 1) = Err errno))"
proof (induction os ss s rule: send_loop.induct)
  case (1 os ss s)
  let ?fd = "write_fd (var_p s)"
  show ?case
  proof (cases "sys_write os (now s)")
    case (Err e)
    then show ?thesis
      by (intro exI[of _ "[take 1024 ss]"]) (simp add: send_loop_Err issue_simps)
  next
    case (Ret u)
    show ?thesis
    proof (cases "length ss < 1024")
      case True
      with Ret show ?thesis
        by (intro exI[of _ "[ss]"]) (simp add: send_loop_last issue_simps)
    next
      case False
      let ?s2 = "(issue (Sys_write ?fd (take 1024 ss)) s)\<lparr>wire := wire s @ take 1024 ss\<rparr>"
      let ?R = "send_loop os (drop 1024 ss) ?s2"
      have unfold: "send_loop os ss s = ?R"
        using Ret False by (rule send_loop_more)
      have s2: "calls ?s2 = calls s @ [Sys_write ?fd (take 1024 ss)]" "var_p ?s2 = var_p s"
        "wire ?s2 = wire s @ take 1024 ss" "now ?s2 = Suc (now s)"
        by (simp_all add: issue_def now_def)
      have "\<exists>chunks. calls (snd ?R) = calls ?s2 @ map (Sys_write (write_fd (var_p ?s2))) chunks
         \<and> chunks \<noteq> [] \<and> (\<forall>c\<in>set chunks. length c \<le> 1024)
         \<and> (fst ?R = Normal () \<and> concat chunks = drop 1024 ss
              \<and> length chunks = length (drop 1024 ss) div 1024 + 1
              \<and> wire (snd ?R) = wire ?s2 @ drop 1024 ss
              \<and> (\<forall>i<length chunks. sys_write os (now ?s2 + i) = Ret ())
            \<or> (\<exists>errno. fst ?R = Throw (Errno_error ''write'' errno)
                  \<and> sys_write os (now ?s2 + length chunks - 1) = Err errno))"
        using "1.IH"[OF refl refl Ret refl False] by (simp only: issue_simps(6))
      then obtain chunks where
        c1: "calls (snd ?R) = calls ?s2 @ map (Sys_write (write_fd (var_p ?s2))) chunks"
        and c2: "chunks \<noteq> []" and c3: "\<forall>c\<in>set chunks. length c \<le> 1024"
        and c4: "fst ?R = Normal () \<and> concat chunks = drop 1024 ss
              \<and> length chunks = length (drop 1024 ss) div 1024 + 1
              \<and> wire (snd ?R) = wire ?s2 @ drop 1024 ss
              \<and> (\<forall>i<length chunks. sys_write os (now ?s2 + i) = Ret ())
            \<or> (\<exists>errno. fst ?R = Throw (Errno_error ''write'' errno)
                  \<and> sys_write os (now ?s2 + length chunks - 1) = Err errno)"
        by blast
      have idx: "now ?s2 + length chunks - 1 = now s + length (take 1024 ss # chunks) - 1"
        using c2 s2(4) by (cases chunks) simp_all
      have len: "length (drop 1024 ss) div 1024 + 1 = length ss div 1024"
        using False le_div_geq[of 1024 "length ss"] by simp
      have t: "calls (snd ?R) = calls s @ map (Sys_write ?fd) (take 1024 ss # chunks)"
        using c1 s2 by simp
      have b: "\<forall>c\<in>set (take 1024 ss # chunks). length c \<le> 1024"
        using c3 by simp
      have d: "fst ?R = Normal () \<and> concat (take 1024 ss # chunks) = ss
              \<and> length (take 1024 ss # chunks) = length ss div 1024 + 1
              \<and> wire (snd ?R) = wire s @ ss
              \<and> (\<forall>i<length (take 1024 ss # chunks). sys_write os (now s + i) = Ret ())
            \<or> (\<exists>errno. fst ?R = Throw (Errno_error ''write'' errno)
                  \<and> sys_write os (now s + length (take 1024 ss # chunks) - 1) = Err errno)"
        using c4
      proof
        assume a: "fst ?R = Normal () \<and> concat chunks = drop 1024 ss
              \<and> length chunks = length (drop 1024 ss) div 1024 + 1
              \<and> wire (snd ?R) = wire ?s2 @ drop 1024 ss
              \<and> (\<forall>i<length chunks. sys_write os (now ?s2 + i) = Ret ())"
        then have "wire (snd ?R) = wire s @ ss"
          using s2(3) by (simp only: append_assoc append_take_drop_id)
        moreover have "length (take 1024 ss # chunks) = length ss div 1024 + 1"
          using a len by simp
        moreover have "\<forall>i<length (take 1024 ss # chunks). sys_write os (now s + i) = Ret ()"
        proof (intro allI impI)
          fix i assume i: "i < length (take 1024 ss # chunks)"
          show "sys_write os (now s + i) = Ret ()"
          proof (cases i)
            case 0
            then show ?thesis using Ret by simp
          next
            case (Suc j)
            then have "j < length chunks" using i by simp
            then have "sys_write os (now ?s2 + j) = Ret ()" using a by blast
            then show ?thesis using Suc s2(4) by simp
          qed
        qed
        ultimately show ?thesis using a by simp
      next
        assume "\<exists>errno. fst ?R = Throw (Errno_error ''write'' errno)
                  \<and> sys_write os (now ?s2 + length chunks - 1) = Err errno"
        then show ?thesis using idx by (simp only:) blast
      qed
      show ?thesis
        unfolding unfold using t b d by (intro exI[of _ "take 1024 ss # chunks"]) simp
    qed
  qed
qed

lemma read_loop_Err:
  "sys_read os (now s) = Err e \<Longrightarrow>
   read_loop os inbound ss s = (Throw (Errno_error ''read'' e), issue (Sys_read (read_fd (var_p s)) 1024) s)"
  by (subst read_loop.simps) (simp add: raise_errno_def Let_def)

lemma read_loop_eof:
  "sys_read os (now s) = Ret k \<Longrightarrow>
   read_loop os [] ss s = (Normal ss, issue (Sys_read (read_fd (var_p s)) 1024) s)"
  by (subst read_loop.simps) (simp add: Let_def)

lemma read_loop_more:
  "sys_read os (now s) = Ret k \<Longrightarrow> inbound \<noteq> [] \<Longrightarrow>
   read_loop os inbound ss s =
     read_loop os (drop (max 1 (min 1024 k)) inbound) (ss @ take (max 1 (min 1024 k)) inbound)
       (issue (Sys_read (read_fd (var_p s)) 1024) s)"
  by (subst read_loop.simps) (simp add: Let_def)

lemma read_loop_frame:
  "var_isl (snd (read_loop os inbound ss s)) = var_isl s
   \<and> var_m (snd (read_loop os inbound ss s)) = var_m s
   \<and> var_p (snd (read_loop os inbound ss s)) = var_p s
   \<and> sent (snd (read_loop os inbound ss s)) = sent s
   \<and> cerr (snd (read_loop os inbound ss s)) = cerr s
   \<and> wire (snd (read_loop os inbound ss s)) = wire s"
proof (induction os inbound ss s rule: read_loop.induct)
  case (1 os inbound ss s)
  show ?case
  proof (cases "sys_read os (now s)")
    case (Err e)
    then show ?thesis by (simp add: read_loop_Err issue_simps)
  next
    case (Ret k)
    show ?thesis
    proof (cases "inbound = []")
      case True
      with Ret show ?thesis by (simp add: read_loop_eof issue_simps)
    next
      case False
      with Ret "1.IH"[OF refl Ret False refl] show ?thesis
        by (simp add: read_loop_more issue_simps)
    qed
  qed
qed

lemma read_loop_result:
  "fst (read_loop os inbound ss s) = Normal (ss @ inbound)
   \<or> (\<exists>e i. now s \<le> i \<and> sys_read os i = Err e
          \<and> fst (read_loop os inbound ss s) = Throw (Errno_error ''read'' e))"
proof (induction os inbound ss s rule: read_loop.induct)
  case (1 os inbound ss s)
  show ?case
  proof (cases "sys_read os (now s)")
    case (Err e)
    then show ?thesis by (auto simp add: read_loop_Err)
  next
    case (Ret k)
    show ?thesis
    proof (cases "inbound = []")
      case True
      with Ret show ?thesis by (simp add: read_loop_eof)
    next
      case False
      let ?n = "max 1 (min 1024 k)"
      let ?R = "read_loop os (drop ?n inbound) (ss @ take ?n inbound) (issue (Sys_read (read_fd (var_p s)) 1024) s)"
      have u: "read_loop os inbound ss s = ?R"
        using Ret False by (rule read_loop_more)
      from "1.IH"[OF refl Ret False refl]
      have "fst ?R = Normal (ss @ inbound)
            \<or> (\<exists>e i. Suc (now s) \<le> i \<and> sys_read os i = Err e \<and> fst ?R = Throw (Errno_error ''read'' e))"
        by (simp add: issue_simps)
      then show ?thesis
        unfolding u by (metis Suc_leD)
    qed
  qed
qed

lemma close_r_frame':
  assumes "close_r os s = (r, s')"
  shows "var_isl s' = var_isl s" "var_m s' = var_m s" "wire s' = wire s" "sent s' = sent s"
    "cerr s' = cerr s" "read_fd (var_p s') = read_fd (var_p s)" "write_fd (var_p s') = write_fd (var_p s)"
    "w_status (var_p s') = w_status (var_p s)" "r = Normal () \<Longrightarrow> \<not> r_status (var_p s')"
    "r \<noteq> Exit c"
  using assms
  by (auto simp add: close_r_def issue_def raise_errno_def Let_def split: sysret.splits if_splits)

lemma close_w_frame':
  assumes "close_w os s = (r, s')"
  shows "var_isl s' = var_isl s" "var_m s' = var_m s" "wire s' = wire s" "sent s' = sent s"
    "cerr s' = cerr s" "read_fd (var_p s') = read_fd (var_p s)" "write_fd (var_p s') = write_fd (var_p s)"
    "r_status (var_p s') = r_status (var_p s)" "r = Normal () \<Longrightarrow> \<not> w_status (var_p s')"
    "r \<noteq> Exit c"
  using assms
  by (auto simp add: close_w_def issue_def raise_errno_def Let_def split: sysret.splits if_splits)


lemma dtor_retries_write_end:
  assumes "w_status (var_p s)" and "sys_close os (now s) = Err e"
    and "fst (close_r os2 (snd (close_w os s))) = Normal ()"
  shows "last (calls (snd (pipe_dtor os2 (snd (close_w os s))))) = Sys_close (write_fd (var_p s))
         \<and> length (calls s) + 2 \<le> length (calls (snd (pipe_dtor os2 (snd (close_w os s)))))"
proof -
  let ?s1 = "issue (Sys_close (write_fd (var_p s))) s"
  have s1: "snd (close_w os s) = ?s1" using assms by (simp add: close_w_fails)
  obtain s2 where c: "close_r os2 ?s1 = (Normal (), s2)"
    using assms(3) unfolding s1 by (cases "close_r os2 ?s1") simp
  have w2: "w_status (var_p s2)" "write_fd (var_p s2) = write_fd (var_p s)"
    using close_r_frame'(7,8)[OF c] assms(1) by (simp_all add: issue_simps)
  have l2: "length (calls s) + 1 \<le> length (calls s2)"
    using c by (auto simp add: close_r_def issue_def Let_def raise_errno_def split: if_splits sysret.splits)
  show ?thesis
    unfolding s1 pipe_dtor_def c using w2 l2
    by (cases "sys_close os2 (now s2)")
       (simp_all add: close_w_fails close_w_succeeds issue_simps print_cerr_simps)
qed

section \<open>Claims about the pipe\<close>

text \<open>
  C9: when the \<^verbatim>\<open>close\<close> call of \<open>close_r\<close> (of \<open>close_w\<close>) fails, the call throws the
  \<^verbatim>\<open>close\<close> error and leaves the pipe as it was, the open flag included; a later
  \<open>close_r\<close> (\<open>close_w\<close>) and the destructor therefore call \<^verbatim>\<open>close\<close> on the same
  descriptor again (the destructor reaches the write end when its \<open>close_r\<close> did not throw).
  A flag that was set is cleared only when the \<^verbatim>\<open>close\<close> call succeeded.
\<close>

theorem close_failure_keeps_end_open:
  "(r_status (var_p s) \<and> sys_close os (now s) = Err e \<longrightarrow>
      fst (close_r os s) = Throw (Errno_error ''close'' e)
      \<and> var_p (snd (close_r os s)) = var_p s
      \<and> calls (snd (close_r os2 (snd (close_r os s))))
          = calls s @ [Sys_close (read_fd (var_p s)), Sys_close (read_fd (var_p s))]
      \<and> take (length (calls s) + 2) (calls (snd (pipe_dtor os2 (snd (close_r os s)))))
          = calls s @ [Sys_close (read_fd (var_p s)), Sys_close (read_fd (var_p s))])
   \<and> (w_status (var_p s) \<and> sys_close os (now s) = Err e \<longrightarrow>
      fst (close_w os s) = Throw (Errno_error ''close'' e)
      \<and> var_p (snd (close_w os s)) = var_p s
      \<and> calls (snd (close_w os2 (snd (close_w os s))))
          = calls s @ [Sys_close (write_fd (var_p s)), Sys_close (write_fd (var_p s))]
      \<and> (fst (close_r os2 (snd (close_w os s))) = Normal () \<longrightarrow>
           last (calls (snd (pipe_dtor os2 (snd (close_w os s))))) = Sys_close (write_fd (var_p s))
           \<and> length (calls s) + 2 \<le> length (calls (snd (pipe_dtor os2 (snd (close_w os s)))))))
   \<and> (r_status (var_p s) \<and> \<not> r_status (var_p (snd (close_r os s))) \<longrightarrow> sys_close os (now s) = Ret ())
   \<and> (w_status (var_p s) \<and> \<not> w_status (var_p (snd (close_w os s))) \<longrightarrow> sys_close os (now s) = Ret ())"
proof (intro conjI impI; (elim conjE)?)
  assume a: "r_status (var_p s)" "sys_close os (now s) = Err e"
  show "fst (close_r os s) = Throw (Errno_error ''close'' e)"
    using a by (simp add: close_r_fails)
  show "var_p (snd (close_r os s)) = var_p s"
    using a by (simp add: close_r_fails issue_simps)
  show "calls (snd (close_r os2 (snd (close_r os s))))
          = calls s @ [Sys_close (read_fd (var_p s)), Sys_close (read_fd (var_p s))]"
    using a by (simp add: close_r_fails close_r_def issue_simps Let_def raise_errno_def split: sysret.splits)
  show "take (length (calls s) + 2) (calls (snd (pipe_dtor os2 (snd (close_r os s)))))
          = calls s @ [Sys_close (read_fd (var_p s)), Sys_close (read_fd (var_p s))]"
    using a by (rule dtor_retries_read_end)
next
  assume a: "w_status (var_p s)" "sys_close os (now s) = Err e"
  show "fst (close_w os s) = Throw (Errno_error ''close'' e)"
    using a by (simp add: close_w_fails)
  show "var_p (snd (close_w os s)) = var_p s"
    using a by (simp add: close_w_fails issue_simps)
  show "calls (snd (close_w os2 (snd (close_w os s))))
          = calls s @ [Sys_close (write_fd (var_p s)), Sys_close (write_fd (var_p s))]"
    using a by (simp add: close_w_fails close_w_def issue_simps Let_def raise_errno_def split: sysret.splits)
  {
    assume b: "fst (close_r os2 (snd (close_w os s))) = Normal ()"
    show "last (calls (snd (pipe_dtor os2 (snd (close_w os s))))) = Sys_close (write_fd (var_p s))"
      using dtor_retries_write_end[OF a b] by simp
    show "length (calls s) + 2 \<le> length (calls (snd (pipe_dtor os2 (snd (close_w os s)))))"
      using dtor_retries_write_end[OF a b] by simp
  }
next
  assume "r_status (var_p s)" "\<not> r_status (var_p (snd (close_r os s)))"
  then show "sys_close os (now s) = Ret ()"
    by (cases "sys_close os (now s)") (simp_all add: close_r_fails issue_simps)
next
  assume "w_status (var_p s)" "\<not> w_status (var_p (snd (close_w os s)))"
  then show "sys_close os (now s) = Ret ()"
    by (cases "sys_close os (now s)") (simp_all add: close_w_fails issue_simps)
qed

text \<open>The read end and the write end of an open pipe on descriptors 3 and 4, with
  \<^verbatim>\<open>close\<close> failing with error 9 first and succeeding in the destructor.\<close>

lemmas example_defs = example_os_def example_st_def example_st_open_def

theorem close_failure_keeps_end_open_witness:
  "fst (close_r (example_os\<lparr>sys_close := (\<lambda>_. Err 9)\<rparr>) example_st_open) = Throw (Errno_error ''close'' 9)
   \<and> var_p (snd (close_r (example_os\<lparr>sys_close := (\<lambda>_. Err 9)\<rparr>) example_st_open)) = var_p example_st_open
   \<and> take 2 (calls (snd (pipe_dtor example_os
        (snd (close_r (example_os\<lparr>sys_close := (\<lambda>_. Err 9)\<rparr>) example_st_open)))))
      = [Sys_close 3, Sys_close 3]
   \<and> fst (close_w (example_os\<lparr>sys_close := (\<lambda>_. Err 9)\<rparr>) example_st_open) = Throw (Errno_error ''close'' 9)
   \<and> last (calls (snd (pipe_dtor example_os
        (snd (close_w (example_os\<lparr>sys_close := (\<lambda>_. Err 9)\<rparr>) example_st_open)))))
      = Sys_close 4"
proof -
  let ?os = "example_os\<lparr>sys_close := (\<lambda>_. Err 9)\<rparr>"
  have v: "calls example_st_open = []" "read_fd (var_p example_st_open) = 3"
    "write_fd (var_p example_st_open) = 4"
    by (simp_all add: example_defs)
  have h1: "r_status (var_p example_st_open)" "w_status (var_p example_st_open)"
    "sys_close ?os (now example_st_open) = Err 9"
    by (simp_all add: example_defs)
  have h2: "fst (close_r example_os (snd (close_w ?os example_st_open))) = Normal ()"
    by (simp add: close_w_fails[OF h1(2,3)] close_r_def issue_simps h1(1) Let_def)
       (simp add: example_os_def)
  from close_failure_keeps_end_open[of example_st_open ?os 9 example_os] h1 h2
  have "fst (close_r ?os example_st_open) = Throw (Errno_error ''close'' 9)"
    "var_p (snd (close_r ?os example_st_open)) = var_p example_st_open"
    "take (length (calls example_st_open) + 2) (calls (snd (pipe_dtor example_os (snd (close_r ?os example_st_open)))))
       = calls example_st_open @ [Sys_close (read_fd (var_p example_st_open)), Sys_close (read_fd (var_p example_st_open))]"
    "fst (close_w ?os example_st_open) = Throw (Errno_error ''close'' 9)"
    "last (calls (snd (pipe_dtor example_os (snd (close_w ?os example_st_open)))))
       = Sys_close (write_fd (var_p example_st_open))"
    by blast+
  then show ?thesis
    by (simp add: v numeral_2_eq_2)
qed


section \<open>Claims about the chunked transfer\<close>

lemma send_message_sent:
  "sent (snd (send_message L os ms s)) = sent s @ [ms]"
  "var_isl (snd (send_message L os ms s)) = var_isl s"
  "var_m (snd (send_message L os ms s)) = var_m s"
  "var_p (snd (send_message L os ms s)) = var_p s"
  "cerr (snd (send_message L os ms s)) = cerr s"
  by (simp_all add: send_message_def Let_def send_loop_frame split: sum.splits)

text \<open>
  C6: \<open>send_message\<close> hands the encoded buffer to \<^verbatim>\<open>write\<close> on the pipe's write end in
  chunks of at most 1024 bytes. Either every write succeeded, and then the chunks written
  are, in order, the whole buffer (\<open>length buf div 1024 + 1\<close> of them, the last one
  possibly empty) and the pipe received exactly the buffer; or the last write issued
  failed, and then the \<^verbatim>\<open>write\<close> error with that call's error code is thrown.
\<close>

theorem send_message_chunked:
  assumes "oarchive L ms = Inr buf"
  shows "\<exists>chunks.
      calls (snd (send_message L os ms s)) = calls s @ map (Sys_write (write_fd (var_p s))) chunks
    \<and> (\<forall>c\<in>set chunks. length c \<le> 1024)
    \<and> (fst (send_message L os ms s) = Normal () \<and> concat chunks = buf
         \<and> length chunks = length buf div 1024 + 1
         \<and> wire (snd (send_message L os ms s)) = wire s @ buf
         \<and> (\<forall>i<length chunks. sys_write os (now s + i) = Ret ())
       \<or> (\<exists>errno. fst (send_message L os ms s) = Throw (Errno_error ''write'' errno)
             \<and> chunks \<noteq> [] \<and> sys_write os (now s + length chunks - 1) = Err errno))"
proof -
  let ?s1 = "s\<lparr>sent := sent s @ [ms]\<rparr>"
  have u: "send_message L os ms s = send_loop os buf ?s1"
    using assms by (simp add: send_message_def Let_def)
  have v: "calls ?s1 = calls s" "var_p ?s1 = var_p s" "wire ?s1 = wire s" "now ?s1 = now s"
    by (simp_all add: now_def)
  from send_loop_spec[of os buf ?s1] show ?thesis
    unfolding u v by blast
qed

text \<open>A message of 2503 bytes goes out in three chunks.\<close>

theorem send_message_chunked_witness:
  "\<exists>chunks.
      calls (snd (send_message (example_lib Evolved) example_os
                \<lparr>get0 = 0, get1 = [], get2 = CHR ''b'', get3 = replicate 2500 (CHR ''x'')\<rparr> example_st_open))
        = map (Sys_write 4) chunks
    \<and> (\<forall>c\<in>set chunks. length c \<le> 1024)
    \<and> fst (send_message (example_lib Evolved) example_os
                \<lparr>get0 = 0, get1 = [], get2 = CHR ''b'', get3 = replicate 2500 (CHR ''x'')\<rparr> example_st_open)
        = Normal ()
    \<and> concat chunks = CHR ''S'' # CHR ''b'' # CHR 0x00 # replicate 2500 (CHR ''x'')
    \<and> length chunks = 3"
proof -
  let ?ms = "\<lparr>get0 = 0, get1 = [], get2 = CHR ''b'', get3 = replicate 2500 (CHR ''x'')\<rparr>"
  let ?buf = "CHR ''S'' # CHR ''b'' # CHR 0x00 # replicate 2500 (CHR ''x'')"
  have e: "oarchive (example_lib Evolved) ?ms = Inr ?buf"
    by (simp add: example_lib_def example_oarchive_def)
  have v: "calls example_st_open = []" "write_fd (var_p example_st_open) = 4"
    by (simp_all add: example_defs)
  have w: "\<And>i. sys_write example_os i \<noteq> Err errno" for errno
    by (simp add: example_os_def)
  from send_message_chunked[OF e, of example_os example_st_open] w
  show ?thesis
    unfolding v by (auto simp add: )
qed


section \<open>Exits, the destructor and the parent's handler\<close>

lemma send_loop_no_exit: "fst (send_loop os ss s) \<noteq> Exit c"
  using send_loop_spec[of os ss s] by auto

lemma send_message_no_exit: "fst (send_message L os ms s) \<noteq> Exit c"
  by (simp add: send_message_def Let_def send_loop_no_exit split: sum.splits)

lemma close_r_no_exit: "fst (close_r os s) \<noteq> Exit c"
  by (simp add: close_r_def Let_def raise_errno_def split: sysret.splits)

lemma close_w_no_exit: "fst (close_w os s) \<noteq> Exit c"
  by (simp add: close_w_def Let_def raise_errno_def split: sysret.splits)

lemma read_loop_no_exit: "fst (read_loop os inbound ss s) \<noteq> Exit c"
  using read_loop_result[of os inbound ss s] by auto

lemma res_cases3:
  obtains (Normal) v s' where "x = (Normal v, s')"
  | (Throw) e s' where "x = (Throw e, s')"
  | (Exit) c s' where "x = (Exit c, s')"
proof (cases x)
  case (Pair r s')
  then show ?thesis using that by (cases r) auto
qed

text \<open>The destructor.\<close>

lemma pipe_dtor_result:
  "(fst (pipe_dtor os s) = Normal () \<and> cerr (snd (pipe_dtor os s)) = cerr s
      \<and> fst (close_r os s) = Normal () \<and> fst (close_w os (snd (close_r os s))) = Normal ())
   \<or> (fst (pipe_dtor os s) = Exit 1 \<and> cerr (snd (pipe_dtor os s)) = cerr s @ [dtor_msg]
      \<and> (\<exists>e. fst (close_r os s) = Throw e
             \<or> fst (close_r os s) = Normal () \<and> fst (close_w os (snd (close_r os s))) = Throw e))"
proof (cases "close_r os s" rule: res_cases3)
  case (Normal v s1)
  note r = this
  show ?thesis
  proof (cases "close_w os s1" rule: res_cases3)
    case (Normal v2 s2)
    then show ?thesis using r close_r_frame'(5)[OF r] close_w_frame'(5)[OF Normal]
      by (simp add: pipe_dtor_def)
  next
    case (Throw e s2)
    then show ?thesis using r close_r_frame'(5)[OF r] close_w_frame'(5)[OF Throw]
      by (simp add: pipe_dtor_def print_cerr_simps)
  next
    case (Exit c s2)
    then show ?thesis using close_w_no_exit[of os s1 c] by simp
  qed
next
  case (Throw e s1)
  then show ?thesis using close_r_frame'(5)[OF Throw]
    by (simp add: pipe_dtor_def print_cerr_simps)
next
  case (Exit c s1)
  then show ?thesis using close_r_no_exit[of os s c] by simp
qed

lemma pipe_dtor_frame:
  "var_isl (snd (pipe_dtor os s)) = var_isl s" "var_m (snd (pipe_dtor os s)) = var_m s"
  "wire (snd (pipe_dtor os s)) = wire s" "sent (snd (pipe_dtor os s)) = sent s"
proof -
  show "var_isl (snd (pipe_dtor os s)) = var_isl s"
    by (cases "close_r os s" rule: res_cases3; cases "close_w os (snd (close_r os s))" rule: res_cases3)
       (simp_all add: pipe_dtor_def print_cerr_simps close_r_frame'(1) close_w_frame'(1))
  show "var_m (snd (pipe_dtor os s)) = var_m s"
    by (cases "close_r os s" rule: res_cases3; cases "close_w os (snd (close_r os s))" rule: res_cases3)
       (simp_all add: pipe_dtor_def print_cerr_simps close_r_frame'(2) close_w_frame'(2))
  show "wire (snd (pipe_dtor os s)) = wire s"
    by (cases "close_r os s" rule: res_cases3; cases "close_w os (snd (close_r os s))" rule: res_cases3)
       (simp_all add: pipe_dtor_def print_cerr_simps close_r_frame'(3) close_w_frame'(3))
  show "sent (snd (pipe_dtor os s)) = sent s"
    by (cases "close_r os s" rule: res_cases3; cases "close_w os (snd (close_r os s))" rule: res_cases3)
       (simp_all add: pipe_dtor_def print_cerr_simps close_r_frame'(4) close_w_frame'(4))
qed


text \<open>The parent's handler.\<close>

lemma parent_catch_result:
  "calls (snd (parent_catch os child_pid e s)) = calls s @ [Sys_kill child_pid SIGTERM]"
  "var_isl (snd (parent_catch os child_pid e s)) = var_isl s"
  "var_m (snd (parent_catch os child_pid e s)) = var_m s"
  "var_p (snd (parent_catch os child_pid e s)) = var_p s"
  "sys_kill os (now s) = Ret () \<or> sys_kill os (now s) = Err ESRCH \<Longrightarrow>
     fst (parent_catch os child_pid e s) = Throw e \<and> cerr (snd (parent_catch os child_pid e s)) = cerr s"
  "sys_kill os (now s) = Err errno \<Longrightarrow> errno \<noteq> ESRCH \<Longrightarrow>
     fst (parent_catch os child_pid e s) = Exit 1
     \<and> cerr (snd (parent_catch os child_pid e s)) = cerr s @ [parent_fatal_msg]"
  "fst (parent_catch os child_pid e s) \<noteq> Normal v"
  by (auto simp add: parent_catch_def Let_def issue_simps print_cerr_simps split: sysret.splits)

lemma run_evolve_parent_Throw:
  assumes "parent_try L os inbound s = (Throw e, s1)"
  shows "run_evolve_parent L os child_pid inbound s = parent_catch os child_pid e s1"
proof (cases "parent_catch os child_pid e s1" rule: res_cases3)
  case (Normal v s')
  then show ?thesis using parent_catch_result(7)[where os=os and child_pid=child_pid and e=e and s=s1 and v=v] by simp
next
  case (Throw e' s')
  then show ?thesis using assms by (simp add: run_evolve_parent_def catching_simps and_then_simps)
next
  case (Exit c s')
  then show ?thesis using assms by (simp add: run_evolve_parent_def catching_simps and_then_simps)
qed

lemma parent_handler_outcome:
  assumes "parent_try L os inbound s = (Throw e, s1)"
  shows "calls (snd (run_evolve_parent L os child_pid inbound s)) = calls s1 @ [Sys_kill child_pid SIGTERM]
    \<and> (sys_kill os (now s1) = Ret () \<or> sys_kill os (now s1) = Err ESRCH \<longrightarrow>
          fst (run_evolve_parent L os child_pid inbound s) = Throw e
          \<and> cerr (snd (run_evolve_parent L os child_pid inbound s)) = cerr s1)
    \<and> (\<forall>errno. sys_kill os (now s1) = Err errno \<and> errno \<noteq> ESRCH \<longrightarrow>
          fst (run_evolve_parent L os child_pid inbound s) = Exit 1
          \<and> cerr (snd (run_evolve_parent L os child_pid inbound s)) = cerr s1 @ [parent_fatal_msg])"
  unfolding run_evolve_parent_Throw[OF assms]
  using parent_catch_result(1)[where os=os and child_pid=child_pid and e=e and s=s1]
    parent_catch_result(5)[where os=os and child_pid=child_pid and e=e and s=s1]
    parent_catch_result(6)[where os=os and child_pid=child_pid and e=e and s=s1]
  by blast

text \<open>
  C7: when the parent's \<^verbatim>\<open>try\<close> block (closing the write end, reading, decoding, closing
  the read end) throws \<open>e\<close>, the parent sends \<^verbatim>\<open>SIGTERM\<close> to the child. If \<^verbatim>\<open>kill\<close>
  succeeded or failed with \<^verbatim>\<open>ESRCH\<close>, the same \<open>e\<close> is thrown again and nothing is
  printed; if it failed with any other error, the diagnostic is printed and the process
  exits with status 1.
\<close>

theorem parent_failure_kills_child_then_reraises:
  assumes "parent_try L os inbound s = (Throw e, s1)"
  shows "calls (snd (run_evolve_parent L os child_pid inbound s)) = calls s1 @ [Sys_kill child_pid SIGTERM]
    \<and> (sys_kill os (now s1) = Ret () \<or> sys_kill os (now s1) = Err ESRCH \<longrightarrow>
          fst (run_evolve_parent L os child_pid inbound s) = Throw e
          \<and> cerr (snd (run_evolve_parent L os child_pid inbound s)) = cerr s1)
    \<and> (\<forall>errno. sys_kill os (now s1) = Err errno \<and> errno \<noteq> ESRCH \<longrightarrow>
          fst (run_evolve_parent L os child_pid inbound s) = Exit 1
          \<and> cerr (snd (run_evolve_parent L os child_pid inbound s)) = cerr s1 @ [parent_fatal_msg])"
proof -
  have u: "run_evolve_parent L os child_pid inbound s = parent_catch os child_pid e s1"
    using assms by (rule run_evolve_parent_Throw)
  have k: "calls (snd (parent_catch os child_pid e s1)) = calls s1 @ [Sys_kill child_pid SIGTERM]"
    by (rule parent_catch_result(1))
  have tolerated: "fst (parent_catch os child_pid e s1) = Throw e
      \<and> cerr (snd (parent_catch os child_pid e s1)) = cerr s1"
    if "sys_kill os (now s1) = Ret () \<or> sys_kill os (now s1) = Err ESRCH"
    using that by (rule parent_catch_result(5))
  have fatal: "fst (parent_catch os child_pid e s1) = Exit 1
      \<and> cerr (snd (parent_catch os child_pid e s1)) = cerr s1 @ [parent_fatal_msg]"
    if "sys_kill os (now s1) = Err errno" "errno \<noteq> ESRCH" for errno
    using that by (rule parent_catch_result(6))
  show ?thesis
    unfolding u using k tolerated fatal by blast
qed

text \<open>A child that died before writing (the decoder fails on the empty stream) with
  \<^verbatim>\<open>kill\<close> answering \<^verbatim>\<open>ESRCH\<close>, then \<^verbatim>\<open>EPERM\<close>; and a failing \<^verbatim>\<open>read\<close>.\<close>

theorem parent_failure_kills_child_then_reraises_witness:
  "fst (run_evolve_parent (example_lib Evolved) (example_os\<lparr>sys_kill := (\<lambda>_. Err ESRCH)\<rparr>) 4711 []
          example_st_open) = Throw (Std_exception ''truncated archive'')
   \<and> last (calls (snd (run_evolve_parent (example_lib Evolved) (example_os\<lparr>sys_kill := (\<lambda>_. Err ESRCH)\<rparr>)
          4711 [] example_st_open))) = Sys_kill 4711 SIGTERM
   \<and> fst (run_evolve_parent (example_lib Evolved) (example_os\<lparr>sys_kill := (\<lambda>_. Err 1)\<rparr>) 4711 []
          example_st_open) = Exit 1
   \<and> fst (run_evolve_parent (example_lib Evolved) (example_os\<lparr>sys_read := (\<lambda>_. Err 5)\<rparr>) 4711 []
          example_st_open) = Throw (Errno_error ''read'' 5)"
proof -
  let ?L = "example_lib Evolved"
  let ?os1 = "example_os\<lparr>sys_kill := (\<lambda>_. Err ESRCH)\<rparr>"
  let ?os2 = "example_os\<lparr>sys_kill := (\<lambda>_. Err 1)\<rparr>"
  let ?os3 = "example_os\<lparr>sys_read := (\<lambda>_. Err 5)\<rparr>"
  have t: "fst (parent_try ?L os [] example_st_open) = Throw (Std_exception ''truncated archive'')"
    if "sys_close os = (\<lambda>_. Ret ())" "sys_read os = (\<lambda>_. Ret 1024)" for os
    using that
    by (simp add: parent_try_def close_w_def example_st_open_def example_st_def Let_def
          and_then_simps read_loop.simps example_lib_def example_iarchive_def)
  have t1: "parent_try ?L ?os1 [] example_st_open
              = (Throw (Std_exception ''truncated archive''), snd (parent_try ?L ?os1 [] example_st_open))"
    using t[of ?os1] by (simp add: example_os_def prod_eq_iff)
  have t2: "parent_try ?L ?os2 [] example_st_open
              = (Throw (Std_exception ''truncated archive''), snd (parent_try ?L ?os2 [] example_st_open))"
    using t[of ?os2] by (simp add: example_os_def prod_eq_iff)
  have t3: "parent_try ?L ?os3 [] example_st_open
              = (Throw (Errno_error ''read'' 5), snd (parent_try ?L ?os3 [] example_st_open))"
    by (simp add: parent_try_def close_w_def example_defs Let_def
          and_then_simps read_loop.simps raise_errno_def)
  have k1: "sys_kill ?os1 i = Err ESRCH" "sys_kill ?os2 i = Err 1" "sys_kill ?os3 i = Ret ()" for i
    by (simp_all add: example_os_def)
  have "(1::int) \<noteq> ESRCH" by (simp add: ESRCH_def)
  with parent_failure_kills_child_then_reraises[OF t1, of 4711]
    parent_failure_kills_child_then_reraises[OF t2, of 4711]
    parent_failure_kills_child_then_reraises[OF t3, of 4711] k1
  show ?thesis by simp
qed


lemma now_var_m [simp]: "now (s\<lparr>var_m := x\<rparr>) = now s"
  by (simp add: now_def)

lemma parent_try_close_r_fails:
  assumes cw: "close_w os s = (Normal (), s1)"
    and rl: "read_loop os inbound [] s1 = (Normal ss, s2)"
    and dec: "iarchive L ss = Inr ms"
    and open_r: "r_status (var_p s)"
    and cl: "sys_close os (now s2) = Err errno"
  shows "parent_try L os inbound s
           = (Throw (Errno_error ''close'' errno),
              issue (Sys_close (read_fd (var_p s))) (s2\<lparr>var_m := ms\<rparr>))"
proof -
  have p2: "var_p s2 = var_p s1"
    using read_loop_frame[of os inbound "[]" s1] rl by simp
  have r2: "r_status (var_p (s2\<lparr>var_m := ms\<rparr>))" "read_fd (var_p (s2\<lparr>var_m := ms\<rparr>)) = read_fd (var_p s)"
    using close_w_frame'(6,8)[OF cw] open_r p2 by simp_all
  have "close_r os (s2\<lparr>var_m := ms\<rparr>)
          = (Throw (Errno_error ''close'' errno), issue (Sys_close (read_fd (var_p s))) (s2\<lparr>var_m := ms\<rparr>))"
    using close_r_fails[of "s2\<lparr>var_m := ms\<rparr>" os errno] r2 cl by simp
  then show ?thesis
    by (simp add: parent_try_def cw rl dec and_then_simps)
qed

text \<open>
  C10: the handler also covers \<open>close_r\<close>. When the message was read and decoded into
  \<^verbatim>\<open>m\<close> and the closing of the read end then fails, the child is signalled, the
  \<^verbatim>\<open>close\<close> error is thrown, and the island is left as it was although \<^verbatim>\<open>m\<close> holds the
  decoded message.
\<close>

theorem close_failure_after_decode_discards_result:
  assumes "close_w os s = (Normal (), s1)"
    and "read_loop os inbound [] s1 = (Normal ss, s2)"
    and "iarchive L ss = Inr ms"
    and "r_status (var_p s)"
    and "sys_close os (now s2) = Err errno"
    and "sys_kill os (Suc (now s2)) = Ret () \<or> sys_kill os (Suc (now s2)) = Err ESRCH"
  shows "fst (run_evolve_parent L os child_pid inbound s) = Throw (Errno_error ''close'' errno)
    \<and> calls (snd (run_evolve_parent L os child_pid inbound s))
         = calls s2 @ [Sys_close (read_fd (var_p s)), Sys_kill child_pid SIGTERM]
    \<and> var_m (snd (run_evolve_parent L os child_pid inbound s)) = ms
    \<and> var_isl (snd (run_evolve_parent L os child_pid inbound s)) = var_isl s"
proof -
  let ?s3 = "issue (Sys_close (read_fd (var_p s))) (s2\<lparr>var_m := ms\<rparr>)"
  let ?e = "Errno_error ''close'' errno"
  have t: "parent_try L os inbound s = (Throw ?e, ?s3)"
    using assms(1-5) by (rule parent_try_close_r_fails)
  have n3: "now ?s3 = Suc (now s2)" by (simp add: issue_simps)
  have i3: "var_isl s2 = var_isl s"
    using read_loop_frame[of os inbound "[]" s1] assms(2) close_w_frame'(1)[OF assms(1)]
    by simp
  have k: "sys_kill os (now ?s3) = Ret () \<or> sys_kill os (now ?s3) = Err ESRCH"
    using assms(6) unfolding n3 .
  show ?thesis
    unfolding run_evolve_parent_Throw[OF t]
    using parent_catch_result(5)[where os=os and child_pid=child_pid and e="?e" and s="?s3", OF k]
    by (simp add: parent_catch_result(1-4) issue_simps i3)
qed

text \<open>A complete success message arrives; the first \<^verbatim>\<open>close\<close> succeeds, the later
  ones fail with error 5.\<close>

theorem close_failure_after_decode_discards_result_witness:
  "fst (run_evolve_parent (example_lib Evolved)
          (example_os\<lparr>sys_close := (\<lambda>i. if i = 0 then Ret () else Err 5)\<rparr>) 4711
          (CHR ''S'' # CHR ''b'' # CHR 0x00 # ''xyz'') example_st_open)
     = Throw (Errno_error ''close'' 5)
   \<and> var_m (snd (run_evolve_parent (example_lib Evolved)
          (example_os\<lparr>sys_close := (\<lambda>i. if i = 0 then Ret () else Err 5)\<rparr>) 4711
          (CHR ''S'' # CHR ''b'' # CHR 0x00 # ''xyz'') example_st_open))
     = \<lparr>get0 = 0, get1 = [], get2 = CHR ''b'', get3 = ''xyz''\<rparr>
   \<and> var_isl (snd (run_evolve_parent (example_lib Evolved)
          (example_os\<lparr>sys_close := (\<lambda>i. if i = 0 then Ret () else Err 5)\<rparr>) 4711
          (CHR ''S'' # CHR ''b'' # CHR 0x00 # ''xyz'') example_st_open))
     = var_isl example_st_open"
proof -
  let ?L = "example_lib Evolved"
  let ?os = "example_os\<lparr>sys_close := (\<lambda>i. if i = 0 then Ret () else Err 5)\<rparr>"
  let ?in = "CHR ''S'' # CHR ''b'' # CHR 0x00 # ''xyz''"
  let ?s1 = "snd (close_w ?os example_st_open)"
  let ?s2 = "snd (read_loop ?os ?in [] ?s1)"
  have c: "close_w ?os example_st_open = (Normal (), ?s1)"
    by (simp add: close_w_def example_defs Let_def now_def)
  have n1: "now ?s1 = 1"
    by (simp add: close_w_def example_defs Let_def issue_def now_def)
  have r: "read_loop ?os ?in [] ?s1 = (Normal ?in, ?s2)"
    using read_loop_result[of ?os ?in "[]" ?s1] by (auto simp add: example_os_def prod_eq_iff)
  have n2: "now ?s2 = 3"
    using n1 by (simp add: read_loop.simps Let_def issue_simps example_os_def)
  have d: "iarchive ?L ?in = Inr \<lparr>get0 = 0, get1 = [], get2 = CHR ''b'', get3 = ''xyz''\<rparr>"
    by (simp add: example_lib_def example_iarchive_def)
  have o: "r_status (var_p example_st_open)" by (simp add: example_defs)
  have f: "sys_close ?os (now ?s2) = Err 5" unfolding n2 by (simp add: example_os_def)
  have k: "sys_kill ?os (Suc (now ?s2)) = Ret () \<or> sys_kill ?os (Suc (now ?s2)) = Err ESRCH"
    by (simp add: example_os_def)
  from close_failure_after_decode_discards_result[OF c r d o f k, of 4711]
  show ?thesis by simp
qed


section \<open>The child always exits; double faults\<close>

lemma child_try_not_Normal: "fst (child_try L os s) \<noteq> Normal v"
proof (cases "close_r os s" rule: res_cases3)
  case (Normal u s1)
  note c = this
  show ?thesis
  proof (cases "evolve L (isl_algorithm (var_isl s1)) (isl_population (var_isl s1))")
    case (Evolved algo new_pop)
    let ?s2 = "s1\<lparr>var_m := (var_m s1)\<lparr>get2 := algo, get3 := new_pop\<rparr>\<rparr>"
    show ?thesis
    proof (cases "send_message L os (var_m ?s2) ?s2" rule: res_cases3)
      case (Normal u3 s3)
      then show ?thesis using c Evolved
        by (cases "close_w os s3" rule: res_cases3)
           (simp_all add: child_try_def and_then_simps Let_def)
    qed (use c Evolved in \<open>simp_all add: child_try_def and_then_simps Let_def\<close>)
  qed (use c in \<open>simp_all add: child_try_def and_then_simps\<close>)
qed (simp_all add: child_try_def and_then_simps)

lemma child_report_result:
  "(fst (child_report L os s) = Exit 0 \<and> cerr (snd (child_report L os s)) = cerr s
      \<and> fst (send_message L os (var_m s\<lparr>get0 := 1, get2 := algorithm_def L, get3 := population_def L\<rparr>)
               (s\<lparr>var_m := (var_m s)\<lparr>get0 := 1, get2 := algorithm_def L, get3 := population_def L\<rparr>\<rparr>))
          = Normal ()
      \<and> fst (close_w os (snd (send_message L os
               (var_m s\<lparr>get0 := 1, get2 := algorithm_def L, get3 := population_def L\<rparr>)
               (s\<lparr>var_m := (var_m s)\<lparr>get0 := 1, get2 := algorithm_def L, get3 := population_def L\<rparr>\<rparr>))))
          = Normal ())
   \<or> (fst (child_report L os s) = Exit 1 \<and> cerr (snd (child_report L os s)) = cerr s @ [fatal_msg]
      \<and> (\<exists>e. fst (send_message L os (var_m s\<lparr>get0 := 1, get2 := algorithm_def L, get3 := population_def L\<rparr>)
               (s\<lparr>var_m := (var_m s)\<lparr>get0 := 1, get2 := algorithm_def L, get3 := population_def L\<rparr>\<rparr>))
              = Throw e
           \<or> fst (send_message L os (var_m s\<lparr>get0 := 1, get2 := algorithm_def L, get3 := population_def L\<rparr>)
               (s\<lparr>var_m := (var_m s)\<lparr>get0 := 1, get2 := algorithm_def L, get3 := population_def L\<rparr>\<rparr>))
              = Normal ()
             \<and> fst (close_w os (snd (send_message L os
                   (var_m s\<lparr>get0 := 1, get2 := algorithm_def L, get3 := population_def L\<rparr>)
                   (s\<lparr>var_m := (var_m s)\<lparr>get0 := 1, get2 := algorithm_def L, get3 := population_def L\<rparr>\<rparr>))))
                 = Throw e))"
proof -
  let ?s2 = "s\<lparr>var_m := (var_m s)\<lparr>get0 := 1, get2 := algorithm_def L, get3 := population_def L\<rparr>\<rparr>"
  have m2: "var_m ?s2 = (var_m s)\<lparr>get0 := 1, get2 := algorithm_def L, get3 := population_def L\<rparr>"
    by simp
  have u: "child_report L os s
      = catching (and_then (send_message L os (var_m ?s2) ?s2) (\<lambda>_ s3.
                   and_then (close_w os s3) (\<lambda>_ s4. (Exit 0, s4))))
                 (\<lambda>e s5. (Exit 1, print_cerr fatal_msg s5))"
    by (simp add: child_report_def Let_def)
  have c2: "cerr ?s2 = cerr s" by simp
  show ?thesis
  proof (cases "send_message L os (var_m ?s2) ?s2" rule: res_cases3)
    case (Normal u3 s3)
    note sm = this
    have c3: "cerr s3 = cerr s"
      using send_message_sent(5)[of L os "var_m ?s2" ?s2] sm by simp
    show ?thesis
    proof (cases "close_w os s3" rule: res_cases3)
      case (Normal u4 s4)
      then show ?thesis
        unfolding u using sm c3 close_w_frame'(5)[OF Normal]
        by (simp add: and_then_simps catching_simps)
    next
      case (Throw e s4)
      then show ?thesis
        unfolding u using sm c3 close_w_frame'(5)[OF Throw]
        by (simp add: and_then_simps catching_simps print_cerr_simps)
    next
      case (Exit c s4)
      then show ?thesis using close_w_no_exit[of os s3 c] by simp
    qed
  next
    case (Throw e s3)
    have c3: "cerr s3 = cerr s"
      using send_message_sent(5)[of L os "var_m ?s2" ?s2] Throw by simp
    show ?thesis
      unfolding u using Throw c3
      by (simp add: and_then_simps catching_simps print_cerr_simps)
  next
    case (Exit c s3)
    then show ?thesis using send_message_no_exit[of L os "var_m ?s2" ?s2 c] by simp
  qed
qed

lemma child_report_exits: "\<exists>c. fst (child_report L os s) = Exit c"
  using child_report_result[of L os s] by blast

lemma run_evolve_child_exits: "\<exists>c. fst (run_evolve_child L os s) = Exit c"
proof (cases "child_try L os s" rule: res_cases3)
  case (Normal v s1)
  then show ?thesis using child_try_not_Normal[of L os s v] by simp
next
  case (Throw e s1)
  then show ?thesis
    using child_report_exits[of L os s1]
      child_report_exits[of L os "s1\<lparr>var_m := (var_m s1)\<lparr>get1 := what L e\<rparr>\<rparr>"]
    by (simp add: run_evolve_child_def catching_simps child_catch_def)
next
  case (Exit c s1)
  then show ?thesis by (simp add: run_evolve_child_def catching_simps)
qed


lemma scope_exit_Exit: "scope_exit os (Exit c, s) = (Exit c, s)"
  by (simp add: scope_exit_def)

lemma scope_exit_dtor_fails:
  assumes "fst (pipe_dtor os s) = Exit 1"
  shows "scope_exit os (Normal (), s) = (Exit 1, snd (pipe_dtor os s))"
    "scope_exit os (Throw e, s) = (Exit 1, snd (pipe_dtor os s))"
  using assms by (cases "pipe_dtor os s" rule: res_cases3; simp add: scope_exit_def and_then_simps)+

lemma scope_exit_dtor_ok:
  assumes "fst (pipe_dtor os s) = Normal ()"
  shows "scope_exit os (Normal (), s) = (Normal (), snd (pipe_dtor os s))"
    "scope_exit os (Throw e, s) = (Throw e, snd (pipe_dtor os s))"
  using assms by (cases "pipe_dtor os s" rule: res_cases3; simp add: scope_exit_def and_then_simps)+

text \<open>
  C8: an error raised while an error is being handled or a resource is being released ends
  the process with status 1 after the fixed diagnostic has been printed, and is never
  thrown to a caller:
  \<^item> a failing close in the pipe's destructor (so leaving \<^verbatim>\<open>run_evolve\<close> by return or
    by exception becomes an exit);
  \<^item> in the parent's handler, a \<^verbatim>\<open>kill\<close> failing with an error other than \<^verbatim>\<open>ESRCH\<close>
    (the exit is not followed by the destructor);
  \<^item> in the child, a failure to store the text of the caught exception;
  \<^item> in the child, a failure to send the failure report or to close the write end after it.

  Whatever happens, the child branch ends in a process exit.
\<close>

theorem double_fault_exits:
  "((\<exists>e. fst (close_r osD sD) = Throw e
         \<or> fst (close_r osD sD) = Normal () \<and> fst (close_w osD (snd (close_r osD sD))) = Throw e) \<longrightarrow>
       fst (pipe_dtor osD sD) = Exit 1 \<and> cerr (snd (pipe_dtor osD sD)) = cerr sD @ [dtor_msg]
       \<and> fst (scope_exit osD (Normal (), sD)) = Exit 1 \<and> fst (scope_exit osD (Throw eD, sD)) = Exit 1)
   \<and> (parent_try L osP inbound sP = (Throw eP, sP1) \<and> sys_kill osP (now sP1) = Err errno \<and> errno \<noteq> ESRCH \<longrightarrow>
       fst (run_evolve_parent L osP child_pid inbound sP) = Exit 1
       \<and> cerr (snd (run_evolve_parent L osP child_pid inbound sP)) = cerr sP1 @ [parent_fatal_msg]
       \<and> scope_exit osP (run_evolve_parent L osP child_pid inbound sP)
           = run_evolve_parent L osP child_pid inbound sP)
   \<and> (child_try L osC sC = (Throw eC, sC1) \<and> is_std_exception eC \<and> what_assign_throws osC \<longrightarrow>
       run_evolve_child L osC sC = (Exit 1, print_cerr fatal_msg sC1))
   \<and> ((\<exists>e. fst (send_message L osR (var_m sR\<lparr>get0 := 1, get2 := algorithm_def L, get3 := population_def L\<rparr>)
               (sR\<lparr>var_m := (var_m sR)\<lparr>get0 := 1, get2 := algorithm_def L, get3 := population_def L\<rparr>\<rparr>))
              = Throw e
           \<or> fst (send_message L osR (var_m sR\<lparr>get0 := 1, get2 := algorithm_def L, get3 := population_def L\<rparr>)
               (sR\<lparr>var_m := (var_m sR)\<lparr>get0 := 1, get2 := algorithm_def L, get3 := population_def L\<rparr>\<rparr>))
              = Normal ()
             \<and> fst (close_w osR (snd (send_message L osR
                   (var_m sR\<lparr>get0 := 1, get2 := algorithm_def L, get3 := population_def L\<rparr>)
                   (sR\<lparr>var_m := (var_m sR)\<lparr>get0 := 1, get2 := algorithm_def L, get3 := population_def L\<rparr>\<rparr>))))
                 = Throw e) \<longrightarrow>
       fst (child_report L osR sR) = Exit 1 \<and> cerr (snd (child_report L osR sR)) = cerr sR @ [fatal_msg])
   \<and> (\<exists>c. fst (run_evolve_child L os s) = Exit c)"
proof (intro conjI impI)
  assume a: "\<exists>e. fst (close_r osD sD) = Throw e
         \<or> fst (close_r osD sD) = Normal () \<and> fst (close_w osD (snd (close_r osD sD))) = Throw e"
  with pipe_dtor_result[of osD sD]
  have d: "fst (pipe_dtor osD sD) = Exit 1 \<and> cerr (snd (pipe_dtor osD sD)) = cerr sD @ [dtor_msg]"
    by auto
  then show "fst (pipe_dtor osD sD) = Exit 1" "cerr (snd (pipe_dtor osD sD)) = cerr sD @ [dtor_msg]"
    by simp_all
  show "fst (scope_exit osD (Normal (), sD)) = Exit 1" "fst (scope_exit osD (Throw eD, sD)) = Exit 1"
    using d by (simp_all add: scope_exit_dtor_fails)
next
  assume a: "parent_try L osP inbound sP = (Throw eP, sP1) \<and> sys_kill osP (now sP1) = Err errno \<and> errno \<noteq> ESRCH"
  then have t: "parent_try L osP inbound sP = (Throw eP, sP1)" by simp
  from a parent_handler_outcome[OF t, of child_pid]
  show x: "fst (run_evolve_parent L osP child_pid inbound sP) = Exit 1"
    and "cerr (snd (run_evolve_parent L osP child_pid inbound sP)) = cerr sP1 @ [parent_fatal_msg]"
    by blast+
  show "scope_exit osP (run_evolve_parent L osP child_pid inbound sP)
           = run_evolve_parent L osP child_pid inbound sP"
    using x by (cases "run_evolve_parent L osP child_pid inbound sP") (simp add: scope_exit_Exit)
next
  assume "child_try L osC sC = (Throw eC, sC1) \<and> is_std_exception eC \<and> what_assign_throws osC"
  then show "run_evolve_child L osC sC = (Exit 1, print_cerr fatal_msg sC1)"
    by (simp add: run_evolve_child_def catching_simps child_catch_def)
next
  assume a: "\<exists>e. fst (send_message L osR (var_m sR\<lparr>get0 := 1, get2 := algorithm_def L, get3 := population_def L\<rparr>)
               (sR\<lparr>var_m := (var_m sR)\<lparr>get0 := 1, get2 := algorithm_def L, get3 := population_def L\<rparr>\<rparr>))
              = Throw e
           \<or> fst (send_message L osR (var_m sR\<lparr>get0 := 1, get2 := algorithm_def L, get3 := population_def L\<rparr>)
               (sR\<lparr>var_m := (var_m sR)\<lparr>get0 := 1, get2 := algorithm_def L, get3 := population_def L\<rparr>\<rparr>))
              = Normal ()
             \<and> fst (close_w osR (snd (send_message L osR
                   (var_m sR\<lparr>get0 := 1, get2 := algorithm_def L, get3 := population_def L\<rparr>)
                   (sR\<lparr>var_m := (var_m sR)\<lparr>get0 := 1, get2 := algorithm_def L, get3 := population_def L\<rparr>\<rparr>))))
                 = Throw e"
  with child_report_result[of L osR sR]
  show "fst (child_report L osR sR) = Exit 1" "cerr (snd (child_report L osR sR)) = cerr sR @ [fatal_msg]"
    by auto
next
  show "\<exists>c. fst (run_evolve_child L os s) = Exit c"
    by (rule run_evolve_child_exits)
qed


text \<open>The four faults on the concrete pipe: \<^verbatim>\<open>close\<close> failing with error 9,
  \<^verbatim>\<open>kill\<close> with error 1, the text assignment throwing, \<^verbatim>\<open>write\<close> failing with error 32.\<close>

theorem double_fault_exits_witness:
  "fst (pipe_dtor (example_os\<lparr>sys_close := (\<lambda>_. Err 9)\<rparr>) example_st_open) = Exit 1
   \<and> cerr (snd (pipe_dtor (example_os\<lparr>sys_close := (\<lambda>_. Err 9)\<rparr>) example_st_open)) = [dtor_msg]
   \<and> fst (run_evolve_parent (example_lib (\<lambda>a p. Evolve_throws (Std_exception ''bounds violated'')))
            (example_os\<lparr>sys_kill := (\<lambda>_. Err 1)\<rparr>) 4711 [] example_st_open) = Exit 1
   \<and> cerr (snd (run_evolve_parent (example_lib (\<lambda>a p. Evolve_throws (Std_exception ''bounds violated'')))
            (example_os\<lparr>sys_kill := (\<lambda>_. Err 1)\<rparr>) 4711 [] example_st_open)) = [parent_fatal_msg]
   \<and> fst (run_evolve_child (example_lib (\<lambda>a p. Evolve_throws (Std_exception ''bounds violated'')))
            (example_os\<lparr>what_assign_throws := True\<rparr>) example_st_open) = Exit 1
   \<and> cerr (snd (run_evolve_child (example_lib (\<lambda>a p. Evolve_throws (Std_exception ''bounds violated'')))
            (example_os\<lparr>what_assign_throws := True\<rparr>) example_st_open)) = [fatal_msg]
   \<and> fst (child_report (example_lib (\<lambda>a p. Evolve_throws (Std_exception ''bounds violated'')))
            (example_os\<lparr>sys_write := (\<lambda>_. Err 32)\<rparr>) example_st_open) = Exit 1
   \<and> cerr (snd (child_report (example_lib (\<lambda>a p. Evolve_throws (Std_exception ''bounds violated'')))
            (example_os\<lparr>sys_write := (\<lambda>_. Err 32)\<rparr>) example_st_open)) = [fatal_msg]"
proof -
  let ?L = "example_lib (\<lambda>a p. Evolve_throws (Std_exception ''bounds violated''))"
  let ?osD = "example_os\<lparr>sys_close := (\<lambda>_. Err 9)\<rparr>"
  let ?osP = "example_os\<lparr>sys_kill := (\<lambda>_. Err 1)\<rparr>"
  let ?osC = "example_os\<lparr>what_assign_throws := True\<rparr>"
  let ?osR = "example_os\<lparr>sys_write := (\<lambda>_. Err 32)\<rparr>"
  let ?sP1 = "snd (parent_try ?L ?osP [] example_st_open)"
  let ?sC1 = "snd (child_try ?L ?osC example_st_open)"
  let ?eP = "Std_exception ''truncated archive''"
  let ?eC = "Std_exception ''bounds violated''"
  have hD: "\<exists>e. fst (close_r ?osD example_st_open) = Throw e
         \<or> fst (close_r ?osD example_st_open) = Normal ()
           \<and> fst (close_w ?osD (snd (close_r ?osD example_st_open))) = Throw e"
    by (simp add: close_r_def example_defs Let_def raise_errno_def)
  have hP: "parent_try ?L ?osP [] example_st_open = (Throw ?eP, ?sP1)
            \<and> sys_kill ?osP (now ?sP1) = Err 1 \<and> (1::int) \<noteq> ESRCH"
    by (simp add: parent_try_def close_w_def example_defs Let_def prod_eq_iff ESRCH_def
          and_then_simps read_loop.simps example_lib_def example_iarchive_def)
  have cP: "cerr ?sP1 = []"
    by (simp add: parent_try_def close_w_def example_defs Let_def issue_def
          and_then_simps read_loop.simps example_lib_def example_iarchive_def)
  have hC: "child_try ?L ?osC example_st_open = (Throw ?eC, ?sC1)
            \<and> is_std_exception ?eC \<and> what_assign_throws ?osC"
    by (simp add: child_try_def close_r_def example_defs Let_def prod_eq_iff
          and_then_simps example_lib_def)
  have cC: "cerr ?sC1 = []"
    by (simp add: child_try_def close_r_def example_defs Let_def issue_def
          and_then_simps example_lib_def)
  have hR: "\<exists>e. fst (send_message ?L ?osR
               (var_m example_st_open\<lparr>get0 := 1, get2 := algorithm_def ?L, get3 := population_def ?L\<rparr>)
               (example_st_open\<lparr>var_m := (var_m example_st_open)\<lparr>get0 := 1, get2 := algorithm_def ?L,
                                          get3 := population_def ?L\<rparr>\<rparr>))
              = Throw e
           \<or> fst (send_message ?L ?osR
               (var_m example_st_open\<lparr>get0 := 1, get2 := algorithm_def ?L, get3 := population_def ?L\<rparr>)
               (example_st_open\<lparr>var_m := (var_m example_st_open)\<lparr>get0 := 1, get2 := algorithm_def ?L,
                                          get3 := population_def ?L\<rparr>\<rparr>))
              = Normal ()
             \<and> fst (close_w ?osR (snd (send_message ?L ?osR
                   (var_m example_st_open\<lparr>get0 := 1, get2 := algorithm_def ?L, get3 := population_def ?L\<rparr>)
                   (example_st_open\<lparr>var_m := (var_m example_st_open)\<lparr>get0 := 1, get2 := algorithm_def ?L,
                                          get3 := population_def ?L\<rparr>\<rparr>))))
                 = Throw e"
    by (simp add: send_message_def example_lib_def example_oarchive_def Let_def send_loop.simps
          example_os_def raise_errno_def)
  have cS: "cerr example_st_open = []" by (simp add: example_defs)
  from double_fault_exits[where osD="?osD" and sD=example_st_open and L="?L" and osP="?osP"
      and inbound="[]" and sP=example_st_open and eP="?eP" and ?sP1.0="?sP1" and errno=1
      and osC="?osC" and sC=example_st_open and eC="?eC" and ?sC1.0="?sC1"
      and osR="?osR" and sR=example_st_open and child_pid=4711] hD hP hC hR
  have "fst (pipe_dtor ?osD example_st_open) = Exit 1"
    "cerr (snd (pipe_dtor ?osD example_st_open)) = cerr example_st_open @ [dtor_msg]"
    "fst (run_evolve_parent ?L ?osP 4711 [] example_st_open) = Exit 1"
    "cerr (snd (run_evolve_parent ?L ?osP 4711 [] example_st_open)) = cerr ?sP1 @ [parent_fatal_msg]"
    "run_evolve_child ?L ?osC example_st_open = (Exit 1, print_cerr fatal_msg ?sC1)"
    "fst (child_report ?L ?osR example_st_open) = Exit 1"
    "cerr (snd (child_report ?L ?osR example_st_open)) = cerr example_st_open @ [fatal_msg]"
    by blast+
  then show ?thesis
    by (simp add: cP cC cS print_cerr_simps)
qed


section \<open>The messages the child sends\<close>

lemma child_report_sent:
  "sent (snd (child_report L os s))
     = sent s @ [(var_m s)\<lparr>get0 := 1, get2 := algorithm_def L, get3 := population_def L\<rparr>]"
  "var_isl (snd (child_report L os s)) = var_isl s"
proof -
  let ?s2 = "s\<lparr>var_m := (var_m s)\<lparr>get0 := 1, get2 := algorithm_def L, get3 := population_def L\<rparr>\<rparr>"
  have u: "child_report L os s
      = catching (and_then (send_message L os (var_m ?s2) ?s2) (\<lambda>_ s3.
                   and_then (close_w os s3) (\<lambda>_ s4. (Exit 0, s4))))
                 (\<lambda>e s5. (Exit 1, print_cerr fatal_msg s5))"
    by (simp add: child_report_def Let_def)
  have "sent (snd (child_report L os s)) = sent ?s2 @ [var_m ?s2]
        \<and> var_isl (snd (child_report L os s)) = var_isl ?s2"
  proof (cases "send_message L os (var_m ?s2) ?s2" rule: res_cases3)
    case (Normal u3 s3)
    then have s3: "sent s3 = sent ?s2 @ [var_m ?s2]" "var_isl s3 = var_isl ?s2"
      using send_message_sent(1,2)[of L os "var_m ?s2" ?s2] by simp_all
    show ?thesis
      unfolding u Normal using s3
      by (cases "close_w os s3" rule: res_cases3)
         (simp_all add: and_then_simps catching_simps print_cerr_simps close_w_frame'(1,4))
  next
    case (Throw e s3)
    then have s3: "sent s3 = sent ?s2 @ [var_m ?s2]" "var_isl s3 = var_isl ?s2"
      using send_message_sent(1,2)[of L os "var_m ?s2" ?s2] by simp_all
    show ?thesis
      unfolding u Throw using s3 by (simp add: and_then_simps catching_simps print_cerr_simps)
  next
    case (Exit c s3)
    then show ?thesis using send_message_no_exit[of L os "var_m ?s2" ?s2 c] by simp
  qed
  then show "sent (snd (child_report L os s))
     = sent s @ [(var_m s)\<lparr>get0 := 1, get2 := algorithm_def L, get3 := population_def L\<rparr>]"
    "var_isl (snd (child_report L os s)) = var_isl s"
    by simp_all
qed

lemma child_try_sent:
  "var_isl (snd (child_try L os s)) = var_isl s
   \<and> (sent (snd (child_try L os s)) = sent s
      \<or> (\<exists>algo new_pop.
            evolve L (isl_algorithm (var_isl s)) (isl_population (var_isl s)) = Evolved algo new_pop
          \<and> sent (snd (child_try L os s)) = sent s @ [(var_m s)\<lparr>get2 := algo, get3 := new_pop\<rparr>]))"
proof (cases "close_r os s" rule: res_cases3)
  case (Normal u s1)
  note c = this
  note f = close_r_frame'(1,2,4)[OF c]
  show ?thesis
  proof (cases "evolve L (isl_algorithm (var_isl s1)) (isl_population (var_isl s1))")
    case (Evolved algo new_pop)
    let ?s2 = "s1\<lparr>var_m := (var_m s1)\<lparr>get2 := algo, get3 := new_pop\<rparr>\<rparr>"
    have t: "child_try L os s = and_then (send_message L os (var_m ?s2) ?s2) (\<lambda>_ s3.
                 and_then (close_w os s3) (\<lambda>_ s4. (Exit 0, s4)))"
      using c Evolved by (simp add: child_try_def and_then_simps Let_def)
    have e: "evolve L (isl_algorithm (var_isl s)) (isl_population (var_isl s)) = Evolved algo new_pop"
      using Evolved f by simp
    have "var_isl (snd (child_try L os s)) = var_isl ?s2
          \<and> sent (snd (child_try L os s)) = sent ?s2 @ [var_m ?s2]"
    proof (cases "send_message L os (var_m ?s2) ?s2" rule: res_cases3)
      case (Normal u3 s3)
      then have s3: "sent s3 = sent ?s2 @ [var_m ?s2]" "var_isl s3 = var_isl ?s2"
        using send_message_sent(1,2)[of L os "var_m ?s2" ?s2] by simp_all
      show ?thesis
        unfolding t Normal using s3
        by (cases "close_w os s3" rule: res_cases3)
           (simp_all add: and_then_simps close_w_frame'(1,4))
    next
      case (Throw e s3)
      then have s3: "sent s3 = sent ?s2 @ [var_m ?s2]" "var_isl s3 = var_isl ?s2"
        using send_message_sent(1,2)[of L os "var_m ?s2" ?s2] by simp_all
      show ?thesis
        unfolding t Throw using s3 by (simp add: and_then_simps)
    next
      case (Exit c s3)
      then show ?thesis using send_message_no_exit[of L os "var_m ?s2" ?s2 c] by simp
    qed
    then show ?thesis using e f by simp
  qed (use c f in \<open>simp_all add: child_try_def and_then_simps\<close>)
next
  case (Throw e s1)
  then show ?thesis using close_r_frame'(1,4)[OF Throw] by (simp add: child_try_def and_then_simps)
next
  case (Exit c s1)
  then show ?thesis using close_r_no_exit[of os s c] by simp
qed

lemma child_try_var_m:
  "get0 (var_m (snd (child_try L os s))) = get0 (var_m s)
   \<and> get1 (var_m (snd (child_try L os s))) = get1 (var_m s)"
proof (cases "close_r os s" rule: res_cases3)
  case (Normal u s1)
  note c = this
  note f = close_r_frame'(2)[OF c]
  show ?thesis
  proof (cases "evolve L (isl_algorithm (var_isl s1)) (isl_population (var_isl s1))")
    case (Evolved algo new_pop)
    let ?s2 = "s1\<lparr>var_m := (var_m s1)\<lparr>get2 := algo, get3 := new_pop\<rparr>\<rparr>"
    have t: "child_try L os s = and_then (send_message L os (var_m ?s2) ?s2) (\<lambda>_ s3.
                 and_then (close_w os s3) (\<lambda>_ s4. (Exit 0, s4)))"
      using c Evolved by (simp add: child_try_def and_then_simps Let_def)
    have "var_m (snd (child_try L os s)) = var_m ?s2"
    proof (cases "send_message L os (var_m ?s2) ?s2" rule: res_cases3)
      case (Normal u3 s3)
      then have s3: "var_m s3 = var_m ?s2"
        using send_message_sent(3)[of L os "var_m ?s2" ?s2] by simp
      show ?thesis
        unfolding t Normal using s3
        by (cases "close_w os s3" rule: res_cases3)
           (simp_all add: and_then_simps close_w_frame'(2))
    next
      case (Throw e s3)
      then have s3: "var_m s3 = var_m ?s2"
        using send_message_sent(3)[of L os "var_m ?s2" ?s2] by simp
      show ?thesis
        unfolding t Throw using s3 by (simp add: and_then_simps)
    next
      case (Exit c s3)
      then show ?thesis using send_message_no_exit[of L os "var_m ?s2" ?s2 c] by simp
    qed
    then show ?thesis using f by simp
  qed (use c f in \<open>simp_all add: child_try_def and_then_simps\<close>)
next
  case (Throw e s1)
  then show ?thesis using close_r_frame'(2)[OF Throw] by (simp add: child_try_def and_then_simps)
next
  case (Exit c s1)
  then show ?thesis using close_r_no_exit[of os s c] by simp
qed

lemma run_evolve_child_sent:
  assumes "ms \<in> set (sent (snd (run_evolve_child L os s)))"
  shows "ms \<in> set (sent s)
    \<or> (get0 ms = get0 (var_m s) \<and> get1 ms = get1 (var_m s)
        \<and> evolve L (isl_algorithm (var_isl s)) (isl_population (var_isl s)) = Evolved (get2 ms) (get3 ms))
    \<or> (get0 ms = 1 \<and> get2 ms = algorithm_def L \<and> get3 ms = population_def L)"
proof -
  let ?t = "child_try L os s"
  have A: "m' \<in> set (sent (snd ?t)) \<Longrightarrow> m' \<in> set (sent s)
      \<or> (get0 m' = get0 (var_m s) \<and> get1 m' = get1 (var_m s)
        \<and> evolve L (isl_algorithm (var_isl s)) (isl_population (var_isl s)) = Evolved (get2 m') (get3 m'))" for m'
    using child_try_sent[of L os s] by auto
  show ?thesis
  proof (cases ?t rule: res_cases3)
    case (Normal v s1)
    then show ?thesis using assms A[of ms] by (auto simp add: run_evolve_child_def catching_simps)
  next
    case (Exit c s1)
    then show ?thesis using assms A[of ms] by (auto simp add: run_evolve_child_def catching_simps)
  next
    case (Throw e s1)
    have s1: "snd ?t = s1" using Throw by simp
    have "ms \<in> set (sent s1)
        \<or> (get0 ms = 1 \<and> get2 ms = algorithm_def L \<and> get3 ms = population_def L)"
      using assms unfolding run_evolve_child_def Throw catching_simps child_catch_def
      by (auto simp add: child_report_sent(1) print_cerr_simps split: if_splits)
    then show ?thesis using A[of ms] s1 by auto
  qed
qed


lemma pipe_ctor_frame:
  "var_isl (snd (pipe_ctor os s)) = var_isl s" "var_m (snd (pipe_ctor os s)) = var_m s"
  "wire (snd (pipe_ctor os s)) = wire s" "sent (snd (pipe_ctor os s)) = sent s"
  "cerr (snd (pipe_ctor os s)) = cerr s" "fst (pipe_ctor os s) \<noteq> Exit c"
  by (simp_all add: pipe_ctor_def Let_def issue_def raise_errno_def split: sysret.splits)

lemma fork_copy_simps:
  "var_isl (fork_copy s) = var_isl s" "var_m (fork_copy s) = var_m s" "var_p (fork_copy s) = var_p s"
  "sent (fork_copy s) = []" "wire (fork_copy s) = []" "cerr (fork_copy s) = []" "calls (fork_copy s) = []"
  "now (fork_copy s) = 0"
  by (simp_all add: fork_copy_def now_def)

lemma forked_child_start:
  assumes "forked_child L osP osC s0 = Some (r, cs)"
  shows "\<exists>os s. (r, cs) = run_evolve_child L os s \<and> var_m s = message_def L
           \<and> var_isl s = var_isl s0 \<and> sent s = []"
proof (cases "pipe_ctor osP (s0\<lparr>var_m := message_def L\<rparr>)" rule: res_cases3)
  case (Normal v s1)
  have f: "var_m s1 = message_def L" "var_isl s1 = var_isl s0"
    using pipe_ctor_frame(1,2)[of osP "s0\<lparr>var_m := message_def L\<rparr>"] Normal by simp_all
  let ?s = "fork_copy (issue Sys_fork s1)"
  have g: "var_m ?s = message_def L" "var_isl ?s = var_isl s0" "sent ?s = []"
    using f by (simp_all add: fork_copy_simps issue_simps)
  show ?thesis
  proof (cases "sys_fork osP (now s1)")
    case (Err e)
    then show ?thesis using assms Normal by (simp add: forked_child_def)
  next
    case (Ret child_pid)
    then have "(r, cs) = run_evolve_child L osC ?s \<or> (r, cs) = run_evolve_child L osP ?s"
      using assms Normal by (auto simp add: forked_child_def split: if_splits)
    then show ?thesis using g by blast
  qed
next
  case (Throw e s1)
  then show ?thesis using assms by (simp add: forked_child_def)
next
  case (Exit c s1)
  then show ?thesis using assms by (simp add: forked_child_def)
qed

text \<open>
  C4: every message the forked child hands to \<open>send_message\<close> satisfies the invariant of
  the wire message. With status 0 the error text is empty and the algorithm and population
  are the ones \<^verbatim>\<open>evolve\<close> returned on the island's algorithm and population; with a
  non-zero status the algorithm and population are the default-constructed ones.
\<close>

theorem child_messages_satisfy_invariant:
  assumes "forked_child L osP osC s0 = Some (r, cs)"
  shows "\<forall>ms\<in>set (sent cs).
      (get0 ms = 0 \<longrightarrow>
         get1 ms = []
         \<and> evolve L (isl_algorithm (var_isl s0)) (isl_population (var_isl s0)) = Evolved (get2 ms) (get3 ms))
    \<and> (get0 ms \<noteq> 0 \<longrightarrow> get2 ms = algorithm_def L \<and> get3 ms = population_def L)"
proof
  fix ms assume m: "ms \<in> set (sent cs)"
  from forked_child_start[OF assms] obtain os s where
    run: "(r, cs) = run_evolve_child L os s" and s: "var_m s = message_def L"
      "var_isl s = var_isl s0" "sent s = []"
    by blast
  have "cs = snd (run_evolve_child L os s)" using run by (metis snd_conv)
  with m have "ms \<in> set (sent (snd (run_evolve_child L os s)))" by simp
  from run_evolve_child_sent[OF this] s
  show "(get0 ms = 0 \<longrightarrow>
         get1 ms = []
         \<and> evolve L (isl_algorithm (var_isl s0)) (isl_population (var_isl s0)) = Evolved (get2 ms) (get3 ms))
    \<and> (get0 ms \<noteq> 0 \<longrightarrow> get2 ms = algorithm_def L \<and> get3 ms = population_def L)"
    by (auto simp add: message_def_def)
qed


text \<open>The equations that run the model on the concrete collaborators.\<close>

lemmas example_eval =
  example_defs example_lib_def example_oarchive_def example_iarchive_def
  and_then_simps catching_simps Let_def issue_def now_def print_cerr_def raise_errno_def
  fork_copy_def message_def_def
  pipe_ctor_def close_r_def close_w_def pipe_dtor_def send_message_def send_loop.simps
  read_loop.simps child_try_def child_catch_def child_report_def run_evolve_child_def
  parent_try_def parent_catch_def

text \<open>A task that throws \<^verbatim>\<open>"bounds violated"\<close>: the child sends one message, the
  failure report.\<close>

theorem child_messages_satisfy_invariant_witness:
  "\<exists>r cs. forked_child (example_lib (\<lambda>a p. Evolve_throws (Std_exception ''bounds violated'')))
             example_os example_os example_st = Some (r, cs)
     \<and> r = Exit 0
     \<and> sent cs = [\<lparr>get0 = 1, get1 = ''bounds violated'', get2 = CHR ''-'', get3 = []\<rparr>]
     \<and> (\<forall>ms\<in>set (sent cs).
          (get0 ms = 0 \<longrightarrow>
             get1 ms = []
             \<and> evolve (example_lib (\<lambda>a p. Evolve_throws (Std_exception ''bounds violated'')))
                 (isl_algorithm (var_isl example_st)) (isl_population (var_isl example_st))
               = Evolved (get2 ms) (get3 ms))
        \<and> (get0 ms \<noteq> 0 \<longrightarrow> get2 ms = CHR ''-'' \<and> get3 ms = []))"
proof -
  let ?L = "example_lib (\<lambda>a p. Evolve_throws (Std_exception ''bounds violated''))"
  let ?c = "the (forked_child ?L example_os example_os example_st)"
  have some: "forked_child ?L example_os example_os example_st = Some (fst ?c, snd ?c)"
    by (simp add: forked_child_def pipe_ctor_def example_defs Let_def)
  have r: "fst ?c = Exit 0"
    by (simp add: forked_child_def example_eval)
  have s: "sent (snd ?c) = [\<lparr>get0 = 1, get1 = ''bounds violated'', get2 = CHR ''-'', get3 = []\<rparr>]"
    by (simp add: forked_child_def example_eval)
  have d: "algorithm_def ?L = CHR ''-''" "population_def ?L = []"
    by (simp_all add: example_lib_def)
  from child_messages_satisfy_invariant[OF some] some r s
  show ?thesis unfolding d by blast
qed


section \<open>What \<^verbatim>\<open>run_evolve\<close> does to the island\<close>

lemma parent_try_frame:
  "var_isl (snd (parent_try L os inbound s)) = var_isl s"
  "fst (parent_try L os inbound s) = Normal v \<Longrightarrow>
     \<not> r_status (var_p (snd (parent_try L os inbound s)))
     \<and> \<not> w_status (var_p (snd (parent_try L os inbound s)))"
  "fst (parent_try L os inbound s) \<noteq> Exit c"
proof -
  have "var_isl (snd (parent_try L os inbound s)) = var_isl s
    \<and> (fst (parent_try L os inbound s) = Normal v \<longrightarrow>
         \<not> r_status (var_p (snd (parent_try L os inbound s)))
         \<and> \<not> w_status (var_p (snd (parent_try L os inbound s))))
    \<and> fst (parent_try L os inbound s) \<noteq> Exit c"
  proof (cases "close_w os s" rule: res_cases3)
    case (Normal u s1)
    note cw = this
    note f1 = close_w_frame'(1,9)[OF cw]
    show ?thesis
    proof (cases "read_loop os inbound [] s1" rule: res_cases3)
      case (Normal ss s2)
      note rl = this
      have f2: "var_isl s2 = var_isl s1" "var_p s2 = var_p s1"
        using read_loop_frame[of os inbound "[]" s1] rl by simp_all
      show ?thesis
      proof (cases "iarchive L ss")
        case (Inl e)
        then show ?thesis using cw rl f1 f2 by (simp add: parent_try_def and_then_simps)
      next
        case (Inr ms)
        let ?s3 = "s2\<lparr>var_m := ms\<rparr>"
        have u: "parent_try L os inbound s = close_r os ?s3"
          using cw rl Inr by (simp add: parent_try_def and_then_simps)
        obtain r s4 where cr: "close_r os ?s3 = (r, s4)" by (cases "close_r os ?s3")
        note f3 = close_r_frame'(1,8,9,10)[OF cr]
        show ?thesis
          unfolding u cr using f1 f2 f3 by auto
      qed
    next
      case (Throw e s2)
      have f2: "var_isl s2 = var_isl s1"
        using read_loop_frame[of os inbound "[]" s1] Throw by simp
      show ?thesis using cw Throw f1 f2 by (simp add: parent_try_def and_then_simps)
    next
      case (Exit c s2)
      then show ?thesis using read_loop_no_exit[of os inbound "[]" s1 c] by simp
    qed
  next
    case (Throw e s1)
    then show ?thesis using close_w_frame'(1)[OF Throw] by (simp add: parent_try_def and_then_simps)
  next
    case (Exit c s1)
    then show ?thesis using close_w_no_exit[of os s c] by simp
  qed
  then show "var_isl (snd (parent_try L os inbound s)) = var_isl s"
    "fst (parent_try L os inbound s) = Normal v \<Longrightarrow>
     \<not> r_status (var_p (snd (parent_try L os inbound s)))
     \<and> \<not> w_status (var_p (snd (parent_try L os inbound s)))"
    "fst (parent_try L os inbound s) \<noteq> Exit c"
    by simp_all
qed

lemma run_evolve_parent_Normal:
  assumes "parent_try L os inbound s = (Normal v, s1)"
  shows "run_evolve_parent L os child_pid inbound s =
     (if get0 (var_m s1) \<noteq> 0 then (Throw (Child_error (get1 (var_m s1))), s1)
      else (Normal (),
            s1\<lparr>var_isl := set_population (get3 (var_m s1))
                             (set_algorithm (get2 (var_m s1)) (var_isl s1))\<rparr>))"
  using assms by (simp add: run_evolve_parent_def catching_simps and_then_simps)

lemma run_evolve_parent_frame:
  "fst (run_evolve_parent L os child_pid inbound s) \<noteq> Normal () \<Longrightarrow>
     var_isl (snd (run_evolve_parent L os child_pid inbound s)) = var_isl s"
  "fst (run_evolve_parent L os child_pid inbound s) = Normal () \<Longrightarrow>
     \<not> r_status (var_p (snd (run_evolve_parent L os child_pid inbound s)))
     \<and> \<not> w_status (var_p (snd (run_evolve_parent L os child_pid inbound s)))"
proof -
  have "(fst (run_evolve_parent L os child_pid inbound s) \<noteq> Normal () \<longrightarrow>
     var_isl (snd (run_evolve_parent L os child_pid inbound s)) = var_isl s)
   \<and> (fst (run_evolve_parent L os child_pid inbound s) = Normal () \<longrightarrow>
     \<not> r_status (var_p (snd (run_evolve_parent L os child_pid inbound s)))
     \<and> \<not> w_status (var_p (snd (run_evolve_parent L os child_pid inbound s))))"
  proof (cases "parent_try L os inbound s" rule: res_cases3)
    case (Normal v s1)
    have "var_isl s1 = var_isl s" "\<not> r_status (var_p s1) \<and> \<not> w_status (var_p s1)"
      using parent_try_frame(1)[of L os inbound s] parent_try_frame(2)[of L os inbound s v] Normal
      by simp_all
    then show ?thesis
      unfolding run_evolve_parent_Normal[OF Normal] by simp
  next
    case (Throw e s1)
    have "var_isl s1 = var_isl s"
      using parent_try_frame(1)[of L os inbound s] Throw by simp
    then show ?thesis
      unfolding run_evolve_parent_Throw[OF Throw]
      using parent_catch_result(7)[where os=os and child_pid=child_pid and e=e and s=s1 and v="()"]
      by (simp add: parent_catch_result(2))
  next
    case (Exit c s1)
    then show ?thesis using parent_try_frame(3)[of L os inbound s c] by simp
  qed
  then show "fst (run_evolve_parent L os child_pid inbound s) \<noteq> Normal () \<Longrightarrow>
     var_isl (snd (run_evolve_parent L os child_pid inbound s)) = var_isl s"
  "fst (run_evolve_parent L os child_pid inbound s) = Normal () \<Longrightarrow>
     \<not> r_status (var_p (snd (run_evolve_parent L os child_pid inbound s)))
     \<and> \<not> w_status (var_p (snd (run_evolve_parent L os child_pid inbound s)))"
    by simp_all
qed

lemma pipe_dtor_closed:
  "\<not> r_status (var_p s) \<Longrightarrow> \<not> w_status (var_p s) \<Longrightarrow> pipe_dtor os s = (Normal (), s)"
  by (simp add: pipe_dtor_def close_r_closed close_w_closed)

lemma scope_exit_frame:
  "var_isl (snd (scope_exit os x)) = var_isl (snd x)"
  "fst x \<noteq> Normal () \<Longrightarrow> fst (scope_exit os x) \<noteq> Normal ()"
proof -
  obtain r s where x: "x = (r, s)" by (cases x)
  have d: "var_isl (snd (pipe_dtor os s)) = var_isl s" by (rule pipe_dtor_frame(1))
  show "var_isl (snd (scope_exit os x)) = var_isl (snd x)"
    unfolding x using d
    by (cases r; cases "pipe_dtor os s" rule: res_cases3) (simp_all add: scope_exit_def and_then_simps)
  show "fst x \<noteq> Normal () \<Longrightarrow> fst (scope_exit os x) \<noteq> Normal ()"
    unfolding x
    by (cases r; cases "pipe_dtor os s" rule: res_cases3) (simp_all add: scope_exit_def and_then_simps)
qed

lemma run_evolve_child_isl: "var_isl (snd (run_evolve_child L os s)) = var_isl s"
proof (cases "child_try L os s" rule: res_cases3)
  case (Throw e s1)
  have "var_isl s1 = var_isl s" using child_try_sent[of L os s] Throw by simp
  then show ?thesis
    unfolding run_evolve_child_def Throw catching_simps child_catch_def
    by (simp add: child_report_sent(2) print_cerr_simps)
qed (use child_try_sent[of L os s] in \<open>simp_all add: run_evolve_child_def catching_simps\<close>)


text \<open>
  C3: an invocation of \<^verbatim>\<open>run_evolve\<close> that does not return normally (it throws, the
  error reported by the child included, or the process exits) leaves the island's
  algorithm and population as they were before the call.
\<close>

theorem run_evolve_failure_leaves_island:
  assumes "fst (run_evolve L osP osC s0) \<noteq> Normal ()"
  shows "var_isl (snd (run_evolve L osP osC s0)) = var_isl s0"
proof (cases "pipe_ctor osP (s0\<lparr>var_m := message_def L\<rparr>)" rule: res_cases3)
  case (Normal v s1)
  have i1: "var_isl s1 = var_isl s0"
    using pipe_ctor_frame(1)[of osP "s0\<lparr>var_m := message_def L\<rparr>"] Normal by simp
  let ?s2 = "issue Sys_fork s1"
  have i2: "var_isl ?s2 = var_isl s0" using i1 by (simp add: issue_simps)
  show ?thesis
  proof (cases "sys_fork osP (now s1)")
    case (Err e)
    then have u: "run_evolve L osP osC s0 = scope_exit osP (Throw (Errno_error ''fork'' e), ?s2)"
      using Normal by (simp add: run_evolve_def and_then_simps Let_def raise_errno_def)
    show ?thesis unfolding u using i2 by (simp add: scope_exit_frame(1))
  next
    case (Ret child_pid)
    show ?thesis
    proof (cases "child_pid = 0")
      case True
      then have u: "run_evolve L osP osC s0 = run_evolve_child L osP (fork_copy ?s2)"
        using Normal Ret by (simp add: run_evolve_def and_then_simps Let_def)
      show ?thesis unfolding u using i2 by (simp add: run_evolve_child_isl fork_copy_simps)
    next
      case False
      let ?P = "run_evolve_parent L osP child_pid
                  (wire (snd (run_evolve_child L osC (fork_copy ?s2)))) ?s2"
      have u: "run_evolve L osP osC s0 = scope_exit osP ?P"
        using Normal Ret False by (simp add: run_evolve_def and_then_simps Let_def)
      have "fst ?P \<noteq> Normal ()"
      proof
        assume n: "fst ?P = Normal ()"
        then have "pipe_dtor osP (snd ?P) = (Normal (), snd ?P)"
          using run_evolve_parent_frame(2)[OF n] by (simp add: pipe_dtor_closed)
        then have "scope_exit osP ?P = (Normal (), snd ?P)"
          using n by (cases ?P) (simp add: scope_exit_def and_then_simps)
        then show False using assms unfolding u by simp
      qed
      then have "var_isl (snd ?P) = var_isl ?s2"
        by (rule run_evolve_parent_frame(1))
      then show ?thesis unfolding u using i2 by (simp add: scope_exit_frame(1))
    qed
  qed
next
  case (Throw e s1)
  then show ?thesis
    using pipe_ctor_frame(1)[of osP "s0\<lparr>var_m := message_def L\<rparr>"]
    by (simp add: run_evolve_def and_then_simps)
next
  case (Exit c s1)
  then show ?thesis
    using pipe_ctor_frame(1)[of osP "s0\<lparr>var_m := message_def L\<rparr>"]
    by (simp add: run_evolve_def and_then_simps)
qed


text \<open>The task throws \<^verbatim>\<open>"bounds violated"\<close>; every system call succeeds.\<close>

theorem run_evolve_failure_leaves_island_witness:
  "fst (run_evolve (example_lib (\<lambda>a p. Evolve_throws (Std_exception ''bounds violated'')))
          example_os example_os example_st) = Throw (Child_error ''bounds violated'')
   \<and> var_isl (snd (run_evolve (example_lib (\<lambda>a p. Evolve_throws (Std_exception ''bounds violated'')))
          example_os example_os example_st)) = var_isl example_st"
proof -
  let ?L = "example_lib (\<lambda>a p. Evolve_throws (Std_exception ''bounds violated''))"
  have f: "fst (run_evolve ?L example_os example_os example_st) = Throw (Child_error ''bounds violated'')"
    by (simp add: run_evolve_def run_evolve_parent_def scope_exit_def example_eval)
  then have "fst (run_evolve ?L example_os example_os example_st) \<noteq> Normal ()"
    by simp
  from run_evolve_failure_leaves_island[OF this] f show ?thesis by simp
qed

section \<open>Runs on which every system call succeeds\<close>

lemma catching_Exit: "fst x = Exit c \<Longrightarrow> catching x h = x"
  by (cases x rule: res_cases3) (simp_all add: catching_simps)

lemma message_updates:
  "(ms::('a, 'p) message_t)\<lparr>get2 := c, get3 := d\<rparr> = \<lparr>get0 = get0 ms, get1 = get1 ms, get2 = c, get3 = d\<rparr>"
  "(ms::('a, 'p) message_t)\<lparr>get0 := a, get2 := c, get3 := d\<rparr> = \<lparr>get0 = a, get1 = get1 ms, get2 = c, get3 = d\<rparr>"
  by (cases ms; simp)+

lemma send_message_ok:
  assumes "oarchive L ms = Inr buf" and "\<forall>i. sys_write os i = Ret ()"
  shows "fst (send_message L os ms s) = Normal ()"
    "wire (snd (send_message L os ms s)) = wire s @ buf"
proof -
  let ?s1 = "s\<lparr>sent := sent s @ [ms]\<rparr>"
  have u: "send_message L os ms s = send_loop os buf ?s1"
    using assms(1) by (simp add: send_message_def Let_def)
  have "fst (send_loop os buf ?s1) = Normal () \<and> wire (snd (send_loop os buf ?s1)) = wire ?s1 @ buf"
    using send_loop_spec[of os buf ?s1] assms(2) by auto
  then show "fst (send_message L os ms s) = Normal ()"
    "wire (snd (send_message L os ms s)) = wire s @ buf"
    unfolding u by simp_all
qed

lemma close_r_ok:
  assumes "\<forall>i. sys_close os i = Ret ()"
  shows "fst (close_r os s) = Normal ()"
  using assms by (simp add: close_r_def Let_def)

lemma close_w_ok:
  assumes "\<forall>i. sys_close os i = Ret ()"
  shows "fst (close_w os s) = Normal ()"
  using assms by (simp add: close_w_def Let_def)

lemma send_then_close_ok:
  assumes "\<forall>i. sys_close os i = Ret ()" and "\<forall>i. sys_write os i = Ret ()"
    and "oarchive L ms = Inr buf"
  shows "fst (and_then (send_message L os ms s) (\<lambda>_ s3.
                 and_then (close_w os s3) (\<lambda>_ s4. (Exit 0, s4)))) = Exit 0"
    "wire (snd (and_then (send_message L os ms s) (\<lambda>_ s3.
                 and_then (close_w os s3) (\<lambda>_ s4. (Exit 0, s4))))) = wire s @ buf"
proof -
  obtain s3 where a: "send_message L os ms s = (Normal (), s3)" and w3: "wire s3 = wire s @ buf"
    using send_message_ok[OF assms(3,2), of s] by (cases "send_message L os ms s") auto
  obtain s4 where b: "close_w os s3 = (Normal (), s4)"
    using close_w_ok[OF assms(1), of s3] by (cases "close_w os s3") auto
  have w4: "wire s4 = wire s @ buf" using close_w_frame'(3)[OF b] w3 by simp
  show "fst (and_then (send_message L os ms s) (\<lambda>_ s3.
                 and_then (close_w os s3) (\<lambda>_ s4. (Exit 0, s4)))) = Exit 0"
    "wire (snd (and_then (send_message L os ms s) (\<lambda>_ s3.
                 and_then (close_w os s3) (\<lambda>_ s4. (Exit 0, s4))))) = wire s @ buf"
    using w4 by (simp_all add: a b and_then_simps)
qed

lemma child_success:
  assumes cl: "\<forall>i. sys_close os i = Ret ()" and wr: "\<forall>i. sys_write os i = Ret ()"
    and task: "evolve L (isl_algorithm (var_isl s)) (isl_population (var_isl s)) = Evolved algo new_pop"
    and enc: "oarchive L \<lparr>get0 = get0 (var_m s), get1 = get1 (var_m s), get2 = algo, get3 = new_pop\<rparr> = Inr buf"
  shows "fst (run_evolve_child L os s) = Exit 0"
    "wire (snd (run_evolve_child L os s)) = wire s @ buf"
proof -
  obtain s1 where c: "close_r os s = (Normal (), s1)"
    using close_r_ok[OF cl, of s] by (cases "close_r os s") auto
  note f = close_r_frame'(1,2,3)[OF c]
  let ?s2 = "s1\<lparr>var_m := (var_m s1)\<lparr>get2 := algo, get3 := new_pop\<rparr>\<rparr>"
  let ?X = "and_then (send_message L os (var_m ?s2) ?s2) (\<lambda>_ s3.
                 and_then (close_w os s3) (\<lambda>_ s4. (Exit 0, s4)))"
  have t: "child_try L os s = ?X"
    using c task f by (simp add: child_try_def and_then_simps Let_def)
  have e: "oarchive L (var_m ?s2) = Inr buf" using enc f by (simp add: message_updates)
  have x: "fst ?X = Exit 0" "wire (snd ?X) = wire ?s2 @ buf"
    using send_then_close_ok[OF cl wr e, of ?s2] by simp_all
  have "run_evolve_child L os s = ?X"
    unfolding run_evolve_child_def t using x(1) by (rule catching_Exit)
  then show "fst (run_evolve_child L os s) = Exit 0"
    "wire (snd (run_evolve_child L os s)) = wire s @ buf"
    using x f by simp_all
qed

lemma child_report_ok:
  assumes cl: "\<forall>i. sys_close os i = Ret ()" and wr: "\<forall>i. sys_write os i = Ret ()"
    and enc: "oarchive L \<lparr>get0 = 1, get1 = get1 (var_m s), get2 = algorithm_def L, get3 = population_def L\<rparr>
               = Inr buf"
  shows "fst (child_report L os s) = Exit 0" "wire (snd (child_report L os s)) = wire s @ buf"
proof -
  let ?s2 = "s\<lparr>var_m := (var_m s)\<lparr>get0 := 1, get2 := algorithm_def L, get3 := population_def L\<rparr>\<rparr>"
  let ?X = "and_then (send_message L os (var_m ?s2) ?s2) (\<lambda>_ s3.
                   and_then (close_w os s3) (\<lambda>_ s4. (Exit 0, s4)))"
  have u: "child_report L os s = catching ?X (\<lambda>e s5. (Exit 1, print_cerr fatal_msg s5))"
    by (simp add: child_report_def Let_def)
  have e: "oarchive L (var_m ?s2) = Inr buf" using enc by (simp add: message_updates)
  have x: "fst ?X = Exit 0" "wire (snd ?X) = wire ?s2 @ buf"
    using send_then_close_ok[OF cl wr e, of ?s2] by simp_all
  have "child_report L os s = ?X"
    unfolding u using x(1) by (rule catching_Exit)
  then show "fst (child_report L os s) = Exit 0" "wire (snd (child_report L os s)) = wire s @ buf"
    using x by simp_all
qed

lemma child_failure:
  assumes cl: "\<forall>i. sys_close os i = Ret ()" and wr: "\<forall>i. sys_write os i = Ret ()"
    and wa: "is_std_exception e \<longrightarrow> \<not> what_assign_throws os"
    and task: "evolve L (isl_algorithm (var_isl s)) (isl_population (var_isl s)) = Evolve_throws e"
    and enc: "oarchive L \<lparr>get0 = 1,
                 get1 = (if is_std_exception e then what L e else get1 (var_m s)),
                 get2 = algorithm_def L, get3 = population_def L\<rparr> = Inr buf"
  shows "fst (run_evolve_child L os s) = Exit 0"
    "wire (snd (run_evolve_child L os s)) = wire s @ buf"
proof -
  obtain s1 where c: "close_r os s = (Normal (), s1)"
    using close_r_ok[OF cl, of s] by (cases "close_r os s") auto
  note f = close_r_frame'(1,2,3)[OF c]
  have t: "child_try L os s = (Throw e, s1)"
    using c task f by (simp add: child_try_def and_then_simps)
  let ?s' = "if is_std_exception e then s1\<lparr>var_m := (var_m s1)\<lparr>get1 := what L e\<rparr>\<rparr> else s1"
  have u: "run_evolve_child L os s = child_report L os ?s'"
    unfolding run_evolve_child_def t catching_simps child_catch_def using wa by simp
  have e': "oarchive L \<lparr>get0 = 1, get1 = get1 (var_m ?s'), get2 = algorithm_def L, get3 = population_def L\<rparr>
              = Inr buf"
    using enc f by (simp split: if_splits)
  have w: "wire ?s' = wire s" using f by simp
  show "fst (run_evolve_child L os s) = Exit 0"
    "wire (snd (run_evolve_child L os s)) = wire s @ buf"
    unfolding u using child_report_ok[OF cl wr e'] w by simp_all
qed


lemma read_loop_ok:
  assumes "\<forall>i. \<exists>k. sys_read os i = Ret k"
  shows "fst (read_loop os inbound ss s) = Normal (ss @ inbound)"
  using read_loop_result[of os inbound ss s] assms by (metis sysret.distinct(1))

lemma parent_try_ok:
  assumes cl: "\<forall>i. sys_close os i = Ret ()" and rd: "\<forall>i. \<exists>k. sys_read os i = Ret k"
    and dec: "iarchive L inbound = Inr ms"
  shows "fst (parent_try L os inbound s) = Normal ()" "var_m (snd (parent_try L os inbound s)) = ms"
proof -
  obtain s1 where a: "close_w os s = (Normal (), s1)"
    using close_w_ok[OF cl, of s] by (cases "close_w os s") auto
  obtain s2 where b: "read_loop os inbound [] s1 = (Normal inbound, s2)"
    using read_loop_ok[OF rd, of inbound "[]" s1] by (cases "read_loop os inbound [] s1") auto
  let ?s3 = "s2\<lparr>var_m := ms\<rparr>"
  obtain s4 where c: "close_r os ?s3 = (Normal (), s4)"
    using close_r_ok[OF cl, of ?s3] by (cases "close_r os ?s3") auto
  have u: "parent_try L os inbound s = (Normal (), s4)"
    by (simp add: parent_try_def a b dec c and_then_simps)
  show "fst (parent_try L os inbound s) = Normal ()" "var_m (snd (parent_try L os inbound s)) = ms"
    unfolding u using close_r_frame'(2)[OF c] by simp_all
qed

lemma island_set:
  "set_population x (set_algorithm a (i::('a, 'p) island)) = \<lparr>isl_algorithm = a, isl_population = x\<rparr>"
  by (cases i) (simp add: set_population_def set_algorithm_def)

lemma run_evolve_parent_ok:
  assumes cl: "\<forall>i. sys_close os i = Ret ()" and rd: "\<forall>i. \<exists>k. sys_read os i = Ret k"
    and dec: "iarchive L inbound = Inr ms"
  shows "fst (run_evolve_parent L os child_pid inbound s)
           = (if get0 ms \<noteq> 0 then Throw (Child_error (get1 ms)) else Normal ())"
    "var_m (snd (run_evolve_parent L os child_pid inbound s)) = ms"
    "get0 ms = 0 \<Longrightarrow> var_isl (snd (run_evolve_parent L os child_pid inbound s))
                         = \<lparr>isl_algorithm = get2 ms, isl_population = get3 ms\<rparr>"
    "\<not> r_status (var_p (snd (run_evolve_parent L os child_pid inbound s)))"
    "\<not> w_status (var_p (snd (run_evolve_parent L os child_pid inbound s)))"
proof -
  obtain s1 where t: "parent_try L os inbound s = (Normal (), s1)"
    using parent_try_ok(1)[OF cl rd dec, of s] by (cases "parent_try L os inbound s") auto
  have m1: "var_m s1 = ms" using parent_try_ok(2)[OF cl rd dec, of s] t by simp
  have p1: "\<not> r_status (var_p s1) \<and> \<not> w_status (var_p s1)"
    using parent_try_frame(2)[of L os inbound s "()"] t by simp
  show "fst (run_evolve_parent L os child_pid inbound s)
           = (if get0 ms \<noteq> 0 then Throw (Child_error (get1 ms)) else Normal ())"
    "var_m (snd (run_evolve_parent L os child_pid inbound s)) = ms"
    "get0 ms = 0 \<Longrightarrow> var_isl (snd (run_evolve_parent L os child_pid inbound s))
                         = \<lparr>isl_algorithm = get2 ms, isl_population = get3 ms\<rparr>"
    "\<not> r_status (var_p (snd (run_evolve_parent L os child_pid inbound s)))"
    "\<not> w_status (var_p (snd (run_evolve_parent L os child_pid inbound s)))"
    unfolding run_evolve_parent_Normal[OF t] using m1 p1 by (simp_all add: island_set)
qed

lemma run_evolve_forks:
  assumes pipe: "sys_pipe osP (now s0) = Ret fd"
    and fork: "sys_fork osP (Suc (now s0)) = Ret child_pid" and pid: "child_pid \<noteq> 0"
  shows "\<exists>s2. run_evolve L osP osC s0
            = scope_exit osP (run_evolve_parent L osP child_pid
                (wire (snd (run_evolve_child L osC (fork_copy s2)))) s2)
          \<and> var_m s2 = message_def L \<and> var_isl s2 = var_isl s0"
proof -
  let ?s = "s0\<lparr>var_m := message_def L\<rparr>"
  obtain s1 where c: "pipe_ctor osP ?s = (Normal (), s1)"
    using pipe by (simp add: pipe_ctor_def Let_def now_def)
  have n1: "now s1 = Suc (now s0)"
    using pipe c by (auto simp add: pipe_ctor_def Let_def now_def issue_def)
  have f: "var_m s1 = message_def L" "var_isl s1 = var_isl s0"
    using pipe_ctor_frame(1,2)[of osP ?s] c by simp_all
  let ?s2 = "issue Sys_fork s1"
  have "run_evolve L osP osC s0
            = scope_exit osP (run_evolve_parent L osP child_pid
                (wire (snd (run_evolve_child L osC (fork_copy ?s2)))) ?s2)"
    unfolding run_evolve_def c and_then_simps using fork pid n1 by (simp add: Let_def)
  moreover have "var_m ?s2 = message_def L" "var_isl ?s2 = var_isl s0"
    using f by (simp_all add: issue_simps)
  ultimately show ?thesis by blast
qed

lemma run_evolve_ok:
  assumes cl: "\<forall>i. sys_close osP i = Ret ()" and rd: "\<forall>i. \<exists>k. sys_read osP i = Ret k"
    and run: "run_evolve L osP osC s0 = scope_exit osP (run_evolve_parent L osP child_pid inbound s2)"
    and dec: "iarchive L inbound = Inr ms"
  shows "fst (run_evolve L osP osC s0)
           = (if get0 ms \<noteq> 0 then Throw (Child_error (get1 ms)) else Normal ())"
    "var_m (snd (run_evolve L osP osC s0)) = ms"
    "get0 ms = 0 \<Longrightarrow> var_isl (snd (run_evolve L osP osC s0))
                         = \<lparr>isl_algorithm = get2 ms, isl_population = get3 ms\<rparr>"
    "\<not> r_status (var_p (snd (run_evolve L osP osC s0)))"
    "\<not> w_status (var_p (snd (run_evolve L osP osC s0)))"
proof -
  let ?P = "run_evolve_parent L osP child_pid inbound s2"
  note p = run_evolve_parent_ok[OF cl rd dec, of child_pid s2]
  have d: "pipe_dtor osP (snd ?P) = (Normal (), snd ?P)"
    using p(4,5) by (simp add: pipe_dtor_closed)
  have "scope_exit osP ?P = ?P"
    using d by (cases ?P rule: res_cases3) (simp_all add: scope_exit_def and_then_simps)
  then have u: "run_evolve L osP osC s0 = ?P" using run by simp
  show "fst (run_evolve L osP osC s0)
           = (if get0 ms \<noteq> 0 then Throw (Child_error (get1 ms)) else Normal ())"
    "var_m (snd (run_evolve L osP osC s0)) = ms"
    "get0 ms = 0 \<Longrightarrow> var_isl (snd (run_evolve L osP osC s0))
                         = \<lparr>isl_algorithm = get2 ms, isl_population = get3 ms\<rparr>"
    "\<not> r_status (var_p (snd (run_evolve L osP osC s0)))"
    "\<not> w_status (var_p (snd (run_evolve L osP osC s0)))"
    unfolding u using p by simp_all
qed



lemma run_evolve_child_reports:
  assumes pipe: "sys_pipe osP (now s0) = Ret fd"
    and fork: "sys_fork osP (Suc (now s0)) = Ret child_pid" and pid: "child_pid \<noteq> 0"
    and clP: "\<forall>i. sys_close osP i = Ret ()" and rdP: "\<forall>i. \<exists>k. sys_read osP i = Ret k"
    and child: "\<And>s. var_m s = message_def L \<Longrightarrow> var_isl s = var_isl s0 \<Longrightarrow> wire s = [] \<Longrightarrow>
                  wire (snd (run_evolve_child L osC s)) = buf"
    and dec: "iarchive L buf = Inr ms"
  shows "fst (run_evolve L osP osC s0)
           = (if get0 ms \<noteq> 0 then Throw (Child_error (get1 ms)) else Normal ())"
    "var_m (snd (run_evolve L osP osC s0)) = ms"
    "get0 ms = 0 \<Longrightarrow> var_isl (snd (run_evolve L osP osC s0))
                         = \<lparr>isl_algorithm = get2 ms, isl_population = get3 ms\<rparr>"
proof -
  from run_evolve_forks[OF pipe fork pid, of L osC] obtain s2 where
    run: "run_evolve L osP osC s0
            = scope_exit osP (run_evolve_parent L osP child_pid
                (wire (snd (run_evolve_child L osC (fork_copy s2)))) s2)"
    and s2: "var_m s2 = message_def L" "var_isl s2 = var_isl s0"
    by blast
  have "wire (snd (run_evolve_child L osC (fork_copy s2))) = buf"
    using s2 by (intro child) (simp_all add: fork_copy_simps)
  with run have run': "run_evolve L osP osC s0
            = scope_exit osP (run_evolve_parent L osP child_pid buf s2)"
    by simp
  show "fst (run_evolve L osP osC s0)
           = (if get0 ms \<noteq> 0 then Throw (Child_error (get1 ms)) else Normal ())"
    "var_m (snd (run_evolve L osP osC s0)) = ms"
    "get0 ms = 0 \<Longrightarrow> var_isl (snd (run_evolve L osP osC s0))
                         = \<lparr>isl_algorithm = get2 ms, isl_population = get3 ms\<rparr>"
    using run_evolve_ok(1-3)[OF clP rdP run' dec] by simp_all
qed


lemma child_success_fresh:
  assumes cl: "\<forall>i. sys_close osC i = Ret ()" and wr: "\<forall>i. sys_write osC i = Ret ()"
    and task: "evolve L (isl_algorithm (var_isl s0)) (isl_population (var_isl s0)) = Evolved algo new_pop"
    and enc: "oarchive L \<lparr>get0 = 0, get1 = [], get2 = algo, get3 = new_pop\<rparr> = Inr buf"
    and m: "var_m s = message_def L" and i: "var_isl s = var_isl s0" and w: "wire s = []"
  shows "wire (snd (run_evolve_child L osC s)) = buf"
proof -
  have a: "evolve L (isl_algorithm (var_isl s)) (isl_population (var_isl s)) = Evolved algo new_pop"
    using task i by simp
  have b: "oarchive L \<lparr>get0 = get0 (var_m s), get1 = get1 (var_m s), get2 = algo, get3 = new_pop\<rparr> = Inr buf"
    using enc m by (simp add: message_def_def)
  have "wire (snd (run_evolve_child L osC s)) = wire s @ buf"
    using cl wr a b by (rule child_success(2))
  then show ?thesis using w by simp
qed


lemma child_failure_fresh:
  assumes cl: "\<forall>i. sys_close osC i = Ret ()" and wr: "\<forall>i. sys_write osC i = Ret ()"
    and wa: "is_std_exception e \<longrightarrow> \<not> what_assign_throws osC"
    and task: "evolve L (isl_algorithm (var_isl s0)) (isl_population (var_isl s0)) = Evolve_throws e"
    and enc: "oarchive L \<lparr>get0 = 1, get1 = (if is_std_exception e then what L e else []),
                           get2 = algorithm_def L, get3 = population_def L\<rparr> = Inr buf"
    and m: "var_m s = message_def L" and i: "var_isl s = var_isl s0" and w: "wire s = []"
  shows "wire (snd (run_evolve_child L osC s)) = buf"
proof -
  have a: "evolve L (isl_algorithm (var_isl s)) (isl_population (var_isl s)) = Evolve_throws e"
    using task i by simp
  have g: "get1 (var_m s) = []" using m by (simp add: message_def_def)
  have b: "oarchive L \<lparr>get0 = 1,
                 get1 = (if is_std_exception e then what L e else get1 (var_m s)),
                 get2 = algorithm_def L, get3 = population_def L\<rparr> = Inr buf"
    using enc unfolding g .
  have "wire (snd (run_evolve_child L osC s)) = wire s @ buf"
    using cl wr wa a b by (rule child_failure(2))
  then show ?thesis using w by simp
qed

section \<open>Claims about complete runs\<close>

text \<open>
  C1, as amended: when every system call of the parent and of the child succeeds (the
  reads may deliver the stream in pieces of any size between 1 and 1024 bytes) and the
  archive decodes what it encoded, a task that evolved the island's algorithm and
  population into \<open>algo\<close> and \<open>new_pop\<close> makes \<^verbatim>\<open>run_evolve\<close> return normally with
  exactly \<open>algo\<close> and \<open>new_pop\<close> installed in the island; the message decoded by the
  parent is the message the child encoded, whatever the length of the encoded buffer.
  Nothing is said here about runs on which a system call fails.
\<close>

theorem run_evolve_success_roundtrip:
  assumes "sys_pipe osP (now s0) = Ret fd"
    and "sys_fork osP (Suc (now s0)) = Ret child_pid" and "child_pid \<noteq> 0"
    and "\<forall>i. sys_close osP i = Ret ()" and "\<forall>i. \<exists>k. sys_read osP i = Ret k"
    and "\<forall>i. sys_close osC i = Ret ()" and "\<forall>i. sys_write osC i = Ret ()"
    and "evolve L (isl_algorithm (var_isl s0)) (isl_population (var_isl s0)) = Evolved algo new_pop"
    and "oarchive L \<lparr>get0 = 0, get1 = [], get2 = algo, get3 = new_pop\<rparr> = Inr buf"
    and "iarchive L buf = Inr \<lparr>get0 = 0, get1 = [], get2 = algo, get3 = new_pop\<rparr>"
  shows "fst (run_evolve L osP osC s0) = Normal ()
    \<and> var_isl (snd (run_evolve L osP osC s0)) = \<lparr>isl_algorithm = algo, isl_population = new_pop\<rparr>
    \<and> var_m (snd (run_evolve L osP osC s0)) = \<lparr>get0 = 0, get1 = [], get2 = algo, get3 = new_pop\<rparr>"
proof -
  let ?ms = "\<lparr>get0 = 0, get1 = [], get2 = algo, get3 = new_pop\<rparr>"
  have child: "\<And>s. var_m s = message_def L \<Longrightarrow> var_isl s = var_isl s0 \<Longrightarrow> wire s = [] \<Longrightarrow>
                  wire (snd (run_evolve_child L osC s)) = buf"
    using assms(6,7,8,9) by (rule child_success_fresh)
  have r1: "fst (run_evolve L osP osC s0)
           = (if get0 ?ms \<noteq> 0 then Throw (Child_error (get1 ?ms)) else Normal ())"
    using assms(1-5) child assms(10) by (rule run_evolve_child_reports(1))
  have r2: "var_m (snd (run_evolve L osP osC s0)) = ?ms"
    using assms(1-5) child assms(10) by (rule run_evolve_child_reports(2))
  have z: "get0 ?ms = 0" by simp
  have r3: "var_isl (snd (run_evolve L osP osC s0))
                         = \<lparr>isl_algorithm = get2 ?ms, isl_population = get3 ?ms\<rparr>"
    using assms(1-5) child assms(10) z by (rule run_evolve_child_reports(3))
  show ?thesis using r1 r2 r3 by simp
qed


text \<open>A population of 2500 characters grows by one; the encoded message has 2504 bytes.\<close>

theorem run_evolve_success_roundtrip_witness:
  "fst (run_evolve (example_lib (\<lambda>a p. Evolved (CHR ''b'') (p @ ''!''))) example_os example_os example_st)
     = Normal ()
   \<and> var_isl (snd (run_evolve (example_lib (\<lambda>a p. Evolved (CHR ''b'') (p @ ''!'')))
                    example_os example_os example_st))
     = \<lparr>isl_algorithm = CHR ''b'', isl_population = replicate 2500 (CHR ''x'') @ ''!''\<rparr>"
proof -
  let ?L = "example_lib (\<lambda>a p. Evolved (CHR ''b'') (p @ ''!''))"
  let ?pop = "replicate 2500 (CHR ''x'') @ ''!''"
  let ?buf = "CHR ''S'' # CHR ''b'' # CHR 0x00 # ?pop"
  have h1: "sys_pipe example_os (now example_st) = Ret (3, 4)"
    "sys_fork example_os (Suc (now example_st)) = Ret 4711" "(4711::int) \<noteq> 0"
    "\<forall>i. sys_close example_os i = Ret ()" "\<forall>i. \<exists>k. sys_read example_os i = Ret k"
    "\<forall>i. sys_write example_os i = Ret ()"
    by (simp_all add: example_os_def)
  have h2: "evolve ?L (isl_algorithm (var_isl example_st)) (isl_population (var_isl example_st))
              = Evolved (CHR ''b'') ?pop"
    by (simp add: example_lib_def example_st_def)
  have h3: "oarchive ?L \<lparr>get0 = 0, get1 = [], get2 = CHR ''b'', get3 = ?pop\<rparr> = Inr ?buf"
    by (simp add: example_lib_def example_oarchive_def)
  have h4: "iarchive ?L ?buf = Inr \<lparr>get0 = 0, get1 = [], get2 = CHR ''b'', get3 = ?pop\<rparr>"
    by (simp add: example_lib_def example_iarchive_def)
  from run_evolve_success_roundtrip[OF h1(1-5) h1(4) h1(6) h2 h3 h4]
  show ?thesis by simp
qed

text \<open>
  C1, as stated (every task that completes without failure makes \<^verbatim>\<open>run_evolve\<close> return
  normally with the computed state), does not hold. The task below completes and its
  result is encoded in 2504 bytes.
  \<^item> With only the child's second \<^verbatim>\<open>write\<close> failing, the first 1024 bytes are already on
    the pipe when the child catches the \<^verbatim>\<open>write\<close> error and sends its failure report
    after them. The parent decodes status 0 from the head of the stream and installs a
    population of 1021 characters followed by the bytes of the report: \<^verbatim>\<open>run_evolve\<close>
    returns normally with a population that is not the computed one.
  \<^item> With the parent's \<^verbatim>\<open>read\<close> failing, \<^verbatim>\<open>run_evolve\<close> throws the \<^verbatim>\<open>read\<close> error.
\<close>

theorem run_evolve_success_roundtrip_counterexample:
  "evolve (example_lib example_grow) (isl_algorithm (var_isl example_st))
       (isl_population (var_isl example_st))
     = Evolved (CHR ''b'') (replicate 2500 (CHR ''x'') @ ''!'')
   \<and> fst (run_evolve (example_lib example_grow) example_os example_os_write_fails example_st)
     = Normal ()
   \<and> isl_population (var_isl (snd (run_evolve (example_lib example_grow) example_os
                                       example_os_write_fails example_st)))
     = replicate 1021 (CHR ''x'')
       @ CHR ''F'' # CHR ''-'' # raise_errno_text (example_lib example_grow) ''write'' 9 @ [CHR 0x00]
   \<and> isl_population (var_isl (snd (run_evolve (example_lib example_grow) example_os
                                       example_os_write_fails example_st)))
     \<noteq> replicate 2500 (CHR ''x'') @ ''!''
   \<and> fst (run_evolve (example_lib example_grow) example_os_read_fails example_os example_st)
     = Throw (Errno_error ''read'' 5)"
proof -
  let ?L = "example_lib example_grow"
  let ?R = "run_evolve ?L example_os example_os_write_fails example_st"
  let ?bad = "replicate 1021 (CHR ''x'')
       @ CHR ''F'' # CHR ''-'' # raise_errno_text ?L ''write'' 9 @ [CHR 0x00]"
  have task: "evolve ?L (isl_algorithm (var_isl example_st)) (isl_population (var_isl example_st))
     = Evolved (CHR ''b'') (replicate 2500 (CHR ''x'') @ ''!'')"
    by (simp add: example_lib_def example_grow_def example_st_def)
  have run: "fst ?R = Normal () \<and> isl_population (var_isl (snd ?R)) = ?bad"
    by (simp add: run_evolve_def run_evolve_parent_def scope_exit_def example_eval example_grow_def
          example_os_write_fails_def raise_errno_text_def set_algorithm_def set_population_def)
  have "length ?bad \<noteq> length (replicate 2500 (CHR ''x'') @ ''!'')"
    by (simp add: raise_errno_text_def example_lib_def)
  then have differ: "?bad \<noteq> replicate 2500 (CHR ''x'') @ ''!''"
    by (rule contrapos_nn) (simp only:)
  have rd: "fst (run_evolve ?L example_os_read_fails example_os example_st)
     = Throw (Errno_error ''read'' 5)"
    by (simp add: run_evolve_def run_evolve_parent_def scope_exit_def example_eval example_grow_def
          example_os_read_fails_def)
  show ?thesis using task run differ rd by (simp only: simp_thms)
qed

text \<open>
  C2: under the same conditions, when the task throws a \<^verbatim>\<open>std::exception\<close> whose
  \<^verbatim>\<open>what()\<close> is \<open>M\<close> (and storing \<open>M\<close> in the message does not throw), \<^verbatim>\<open>run_evolve\<close>
  throws the error that reports a failure of the child, carrying exactly \<open>M\<close>; the
  message decoded by the parent has status 1 and the text \<open>M\<close>. (The text of the C++
  exception is \<open>child_error_text M\<close>: a fixed preamble followed by \<open>M\<close>.)
\<close>

theorem run_evolve_task_failure_message:
  assumes "sys_pipe osP (now s0) = Ret fd"
    and "sys_fork osP (Suc (now s0)) = Ret child_pid" and "child_pid \<noteq> 0"
    and "\<forall>i. sys_close osP i = Ret ()" and "\<forall>i. \<exists>k. sys_read osP i = Ret k"
    and "\<forall>i. sys_close osC i = Ret ()" and "\<forall>i. sys_write osC i = Ret ()"
    and "\<not> what_assign_throws osC"
    and "evolve L (isl_algorithm (var_isl s0)) (isl_population (var_isl s0)) = Evolve_throws e"
    and "is_std_exception e"
    and "oarchive L \<lparr>get0 = 1, get1 = what L e, get2 = algorithm_def L, get3 = population_def L\<rparr> = Inr buf"
    and "iarchive L buf = Inr \<lparr>get0 = 1, get1 = what L e, get2 = algorithm_def L, get3 = population_def L\<rparr>"
  shows "fst (run_evolve L osP osC s0) = Throw (Child_error (what L e))
    \<and> var_m (snd (run_evolve L osP osC s0))
        = \<lparr>get0 = 1, get1 = what L e, get2 = algorithm_def L, get3 = population_def L\<rparr>"
proof -
  let ?ms = "\<lparr>get0 = 1, get1 = what L e, get2 = algorithm_def L, get3 = population_def L\<rparr>"
  have wa: "is_std_exception e \<longrightarrow> \<not> what_assign_throws osC" using assms(8) by simp
  have enc: "oarchive L \<lparr>get0 = 1, get1 = (if is_std_exception e then what L e else []),
                           get2 = algorithm_def L, get3 = population_def L\<rparr> = Inr buf"
    using assms(10,11) by simp
  have child: "\<And>s. var_m s = message_def L \<Longrightarrow> var_isl s = var_isl s0 \<Longrightarrow> wire s = [] \<Longrightarrow>
                  wire (snd (run_evolve_child L osC s)) = buf"
    using assms(6,7) wa assms(9) enc by (rule child_failure_fresh)
  have r1: "fst (run_evolve L osP osC s0)
           = (if get0 ?ms \<noteq> 0 then Throw (Child_error (get1 ?ms)) else Normal ())"
    using assms(1-5) child assms(12) by (rule run_evolve_child_reports(1))
  have r2: "var_m (snd (run_evolve L osP osC s0)) = ?ms"
    using assms(1-5) child assms(12) by (rule run_evolve_child_reports(2))
  show ?thesis using r1 r2 by simp
qed

text \<open>The task throws \<^verbatim>\<open>"bounds violated"\<close>.\<close>

theorem run_evolve_task_failure_message_witness:
  "fst (run_evolve (example_lib (\<lambda>a p. Evolve_throws (Std_exception ''bounds violated'')))
          example_os example_os example_st) = Throw (Child_error ''bounds violated'')"
proof -
  let ?e = "Std_exception ''bounds violated''"
  let ?L = "example_lib (\<lambda>a p. Evolve_throws ?e)"
  let ?buf = "CHR ''F'' # CHR ''-'' # ''bounds violated'' @ [CHR 0x00]"
  have h1: "sys_pipe example_os (now example_st) = Ret (3, 4)"
    "sys_fork example_os (Suc (now example_st)) = Ret 4711" "(4711::int) \<noteq> 0"
    "\<forall>i. sys_close example_os i = Ret ()" "\<forall>i. \<exists>k. sys_read example_os i = Ret k"
    "\<forall>i. sys_write example_os i = Ret ()" "\<not> what_assign_throws example_os"
    by (simp_all add: example_os_def)
  have h2: "evolve ?L (isl_algorithm (var_isl example_st)) (isl_population (var_isl example_st))
              = Evolve_throws ?e" "is_std_exception ?e"
    by (simp_all add: example_lib_def)
  have w: "what ?L ?e = ''bounds violated''" by simp
  have h3: "oarchive ?L \<lparr>get0 = 1, get1 = what ?L ?e, get2 = algorithm_def ?L, get3 = population_def ?L\<rparr>
              = Inr ?buf"
    unfolding w by (simp add: example_lib_def example_oarchive_def)
  have h4: "iarchive ?L ?buf
              = Inr \<lparr>get0 = 1, get1 = what ?L ?e, get2 = algorithm_def ?L, get3 = population_def ?L\<rparr>"
    unfolding w by (simp add: example_lib_def example_iarchive_def)
  from run_evolve_task_failure_message[OF h1(1-5) h1(4) h1(6) h1(7) h2 h3 h4]
  show ?thesis unfolding w by simp
qed

text \<open>
  C5: under the same conditions, when the task throws something that is not a
  \<^verbatim>\<open>std::exception\<close>, \<^verbatim>\<open>run_evolve\<close> throws the error that reports a failure of the
  child with the empty text, and in particular not an error of \<open>raise_errno\<close>.
\<close>

theorem run_evolve_unknown_failure_empty_message:
  assumes "sys_pipe osP (now s0) = Ret fd"
    and "sys_fork osP (Suc (now s0)) = Ret child_pid" and "child_pid \<noteq> 0"
    and "\<forall>i. sys_close osP i = Ret ()" and "\<forall>i. \<exists>k. sys_read osP i = Ret k"
    and "\<forall>i. sys_close osC i = Ret ()" and "\<forall>i. sys_write osC i = Ret ()"
    and "evolve L (isl_algorithm (var_isl s0)) (isl_population (var_isl s0)) = Evolve_throws e"
    and "\<not> is_std_exception e"
    and "oarchive L \<lparr>get0 = 1, get1 = [], get2 = algorithm_def L, get3 = population_def L\<rparr> = Inr buf"
    and "iarchive L buf = Inr \<lparr>get0 = 1, get1 = [], get2 = algorithm_def L, get3 = population_def L\<rparr>"
  shows "fst (run_evolve L osP osC s0) = Throw (Child_error [])
    \<and> (\<forall>fname errno. fst (run_evolve L osP osC s0) \<noteq> Throw (Errno_error fname errno))"
proof -
  let ?ms = "\<lparr>get0 = 1, get1 = [], get2 = algorithm_def L, get3 = population_def L\<rparr>"
  have wa: "is_std_exception e \<longrightarrow> \<not> what_assign_throws osC" using assms(9) by simp
  have enc: "oarchive L \<lparr>get0 = 1, get1 = (if is_std_exception e then what L e else []),
                           get2 = algorithm_def L, get3 = population_def L\<rparr> = Inr buf"
    using assms(9,10) by simp
  have child: "\<And>s. var_m s = message_def L \<Longrightarrow> var_isl s = var_isl s0 \<Longrightarrow> wire s = [] \<Longrightarrow>
                  wire (snd (run_evolve_child L osC s)) = buf"
    using assms(6,7) wa assms(8) enc by (rule child_failure_fresh)
  have r1: "fst (run_evolve L osP osC s0)
           = (if get0 ?ms \<noteq> 0 then Throw (Child_error (get1 ?ms)) else Normal ())"
    using assms(1-5) child assms(11) by (rule run_evolve_child_reports(1))
  show ?thesis using r1 by simp
qed

text \<open>The task throws an exception that is not a \<^verbatim>\<open>std::exception\<close>.\<close>

theorem run_evolve_unknown_failure_empty_message_witness:
  "fst (run_evolve (example_lib (\<lambda>a p. Evolve_throws Other_exception))
          example_os example_os example_st) = Throw (Child_error [])"
proof -
  let ?L = "example_lib (\<lambda>a p. Evolve_throws Other_exception)"
  let ?buf = "[CHR ''F'', CHR ''-'', CHR 0x00]"
  have h1: "sys_pipe example_os (now example_st) = Ret (3, 4)"
    "sys_fork example_os (Suc (now example_st)) = Ret 4711" "(4711::int) \<noteq> 0"
    "\<forall>i. sys_close example_os i = Ret ()" "\<forall>i. \<exists>k. sys_read example_os i = Ret k"
    "\<forall>i. sys_write example_os i = Ret ()"
    by (simp_all add: example_os_def)
  have h2: "evolve ?L (isl_algorithm (var_isl example_st)) (isl_population (var_isl example_st))
              = Evolve_throws Other_exception" "\<not> is_std_exception Other_exception"
    by (simp_all add: example_lib_def)
  have h3: "oarchive ?L \<lparr>get0 = 1, get1 = [], get2 = algorithm_def ?L, get3 = population_def ?L\<rparr>
              = Inr ?buf"
    by (simp add: example_lib_def example_oarchive_def)
  have h4: "iarchive ?L ?buf
              = Inr \<lparr>get0 = 1, get1 = [], get2 = algorithm_def ?L, get3 = population_def ?L\<rparr>"
    by (simp add: example_lib_def example_iarchive_def)
  from run_evolve_unknown_failure_empty_message[OF h1(1-5) h1(4) h1(6) h2 h3 h4]
  show ?thesis by simp
qed


end
